theory Spec2Isabelle
  imports Main "HOL-Library.AList" "HOL-Library.Sublist" "HOL-Library.Char_ord"
    "HOL-Library.List_Lexorder" "HOL-Library.Multiset"
begin

section \<open>Constants of the package format\<close>

definition RelationTypeAasxOrigin :: string where
  "RelationTypeAasxOrigin = ''http://admin-shell.io/aasx/relationships/aasx-origin''"

definition RelationTypeAasxSpec :: string where
  "RelationTypeAasxSpec = ''http://admin-shell.io/aasx/relationships/aas-spec''"

definition RelationTypeAasxSupplementary :: string where
  "RelationTypeAasxSupplementary = ''http://admin-shell.io/aasx/relationships/aas-suppl''"

definition RelationTypeThumbnail :: string where
  "RelationTypeThumbnail =
     ''http://schemas.openxmlformats.org/package/2006/relationships/metadata/thumbnail''"

definition OpcRelationshipNamespace :: string where
  "OpcRelationshipNamespace = ''http://schemas.openxmlformats.org/package/2006/relationships''"

definition OpcContentTypesNamespace :: string where
  "OpcContentTypesNamespace = ''http://schemas.openxmlformats.org/package/2006/content-types''"

definition ErrNoOriginPart :: string where
  "ErrNoOriginPart = ''no origin part found''"

definition ErrPartNotFound :: string where
  "ErrPartNotFound = ''part not found''"

definition ErrInvalidFormat :: string where
  "ErrInvalidFormat = ''invalid package format''"

section \<open>String primitives of the host language\<close>

text \<open>
  Strings are lists of 8-bit characters. The paths the package handles come from the
  \<open>pathname\<close> of a URL, which is ASCII (everything else is percent-encoded), so
  \<open>toLowerCase\<close> is modelled on the letters A to Z and leaves every other character as it is.
\<close>

definition lowerChar :: "char \<Rightarrow> char" where
  "lowerChar c =
     (let n = (of_char c :: nat) in if 65 \<le> n \<and> n \<le> 90 then char_of (n + 32) else c)"

definition toLowerCase :: "string \<Rightarrow> string" where
  "toLowerCase s = map lowerChar s"

definition startsWith :: "string \<Rightarrow> string \<Rightarrow> bool" where
  "startsWith s p = prefix p s"

definition endsWith :: "string \<Rightarrow> string \<Rightarrow> bool" where
  "endsWith s p = suffix p s"

definition includesStr :: "string \<Rightarrow> string \<Rightarrow> bool" where
  "includesStr s p = sublist p s"

text \<open>\<open>s.split(c)\<close>: the pieces between the separators; an empty string gives one empty piece.\<close>

fun split :: "string \<Rightarrow> char \<Rightarrow> string list" where
  "split [] c = [[]]"
| "split (x # xs) c =
     (if x = c then [] # split xs c
      else (case split xs c of [] \<Rightarrow> [[x]] | s # ss \<Rightarrow> (x # s) # ss))"

text \<open>\<open>xs.join(sep)\<close>.\<close>

fun join :: "string list \<Rightarrow> string \<Rightarrow> string" where
  "join [] sep = []"
| "join [x] sep = x"
| "join (x # y # ys) sep = x @ sep @ join (y # ys) sep"

text \<open>\<open>s.lastIndexOf(c)\<close>: the index of the last occurrence, or -1.\<close>

definition lastIndexOf :: "string \<Rightarrow> char \<Rightarrow> int" where
  "lastIndexOf s c =
     (if c \<in> set s then int (length s) - 1 - int (length (takeWhile (\<lambda>x. x \<noteq> c) (rev s)))
      else - 1)"

text \<open>\<open>s.replace(/sfx$/, '')\<close> for a literal suffix.\<close>

definition removeSuffix :: "string \<Rightarrow> string \<Rightarrow> string" where
  "removeSuffix s sfx = (if suffix sfx s then take (length s - length sfx) s else s)"

text \<open>\<open>s.replace(c, '')\<close> for a one-character string: only the first occurrence goes.\<close>

definition removeFirst :: "string \<Rightarrow> char \<Rightarrow> string" where
  "removeFirst s c = remove1 c s"

text \<open>\<open>n.toString(16)\<close> and \<open>s.padStart(k, c)\<close>.\<close>

definition hexDigit :: "nat \<Rightarrow> char" where
  "hexDigit d = ''0123456789abcdef'' ! d"

fun toString16 :: "nat \<Rightarrow> string" where
  "toString16 n = (if n < 16 then [hexDigit n] else toString16 (n div 16) @ [hexDigit (n mod 16)])"

declare toString16.simps [simp del]

definition padStart :: "string \<Rightarrow> nat \<Rightarrow> char \<Rightarrow> string" where
  "padStart s k c = replicate (k - length s) c @ s"

section \<open>Path resolution\<close>

definition trimTrailingSlash :: "string \<Rightarrow> string" where
  "trimTrailingSlash p = (if length p > 1 \<and> endsWith p ''/'' then butlast p else p)"

definition ensureLeadingSlash :: "string \<Rightarrow> string" where
  "ensureLeadingSlash p = (if startsWith p ''/'' then p else ''/'' @ p)"

definition trimLeadingSlash :: "string \<Rightarrow> string" where
  "trimLeadingSlash p = (if startsWith p ''/'' then drop 1 p else p)"

definition dirName :: "string \<Rightarrow> string" where
  "dirName p =
     (let normalized = trimTrailingSlash p; index = lastIndexOf normalized (CHR ''/'')
      in if index \<le> 0 then ''/'' else take (nat index) normalized)"

definition baseName :: "string \<Rightarrow> string" where
  "baseName p =
     (let normalized = trimTrailingSlash p; index = lastIndexOf normalized (CHR ''/'')
      in if index < 0 then normalized else drop (nat (index + 1)) normalized)"

definition extName :: "string \<Rightarrow> string" where
  "extName p =
     (let base = baseName p; index = lastIndexOf base (CHR ''.'')
      in if index \<le> 0 then [] else drop (nat index) base)"

text \<open>
  The stack of \<open>normalizePath\<close> is a list whose last element is the top; popping an empty
  stack does nothing, as \<open>Array.prototype.pop\<close> does.
\<close>

definition normalizeStep :: "string list \<Rightarrow> string \<Rightarrow> string list" where
  "normalizeStep stack segment =
     (if segment = [] \<or> segment = ''.'' then stack
      else if segment = ''..'' then butlast stack
      else stack @ [segment])"

definition normalizePath :: "string \<Rightarrow> string" where
  "normalizePath input = ''/'' @ join (foldl normalizeStep [] (split input (CHR ''/''))) ''/''"

definition normalizePathForMap :: "string \<Rightarrow> string" where
  "normalizePathForMap p =
     (if p = [] then []
      else let withPrefix = (if startsWith p ''/'' then p else ''/'' @ p)
           in toLowerCase (normalizePath withPrefix))"

definition getSourcePathFromRelsPath :: "string \<Rightarrow> string" where
  "getSourcePathFromRelsPath relsPath =
     (let clean = trimLeadingSlash relsPath
      in if clean = ''_rels/.rels'' then []
         else let d0 = removeSuffix (dirName clean) ''/_rels'';
                  dir = (if d0 = ''_rels'' then [] else d0);
                  base = removeSuffix (baseName clean) ''.rels''
              in if dir = [] \<or> dir = ''.'' then ensureLeadingSlash base
                 else ensureLeadingSlash (dir @ ''/'' @ base))"

definition getRelsPath :: "string \<Rightarrow> string" where
  "getRelsPath sourcePath =
     (let normalized = normalizePathForMap sourcePath
      in if normalized = [] then ''/_rels/.rels''
         else let dir = dirName normalized; base = baseName normalized
              in if dir = [] \<or> dir = ''/'' then ''/_rels/'' @ base @ ''.rels''
                 else dir @ ''/_rels/'' @ base @ ''.rels'')"

definition resolveRelativeURI :: "string \<Rightarrow> string \<Rightarrow> string" where
  "resolveRelativeURI sourcePath tgt =
     (let normalizedTarget = map (\<lambda>c. if c = CHR 0x5C then CHR ''/'' else c) tgt
      in if startsWith normalizedTarget ''/'' then normalizedTarget
         else let sourceDirectory =
                    (if sourcePath = [] then ''/''
                     else let d = dirName sourcePath in if d = [] then ''/'' else d)
              in normalizePath (sourceDirectory @ ''/'' @ normalizedTarget))"

section \<open>Data model\<close>

text \<open>
  A \<open>URL\<close> object of the host, reduced to the two things the package reads from it:
  \<open>uri.pathname\<close> and \<open>uri.toString()\<close>.
\<close>

record url =
  pathname :: string
  href :: string

record Relationship =
  relId :: string
  relType :: string
  target :: string
  targetMode :: string

text \<open>
  A part: its URI, its content type and its bytes. The type of byte arrays is a parameter
  \<open>'b\<close>: the package only copies them and hands them to the codecs. The operations that
  take a part read nothing but its URI, which never changes, so a part handle held by a
  caller is modelled by the value of the part.
\<close>

record 'b part =
  URI :: url
  ContentType :: string
  content :: 'b

datatype PackageSink = FileSink string | StreamSink

text \<open>
  The two \<open>Map\<close>s of \<open>PackageBase\<close> are association lists in insertion order:
  \<open>get\<close> is \<open>map_of\<close>, \<open>set\<close> is \<open>AList.update\<close> (an existing key keeps its place, a
  new key goes to the end) and \<open>delete\<close> is \<open>AList.delete\<close>.
\<close>

record 'b PackageBase =
  parts :: "(string \<times> 'b part) list"
  relationships :: "(string \<times> Relationship list) list"
  originURI :: string
  nextRelID :: nat
  path :: string
  readWrite :: bool
  sink :: "PackageSink option"

definition newPackageBase :: "string \<Rightarrow> bool \<Rightarrow> PackageSink option \<Rightarrow> 'b PackageBase" where
  "newPackageBase pth rw snk =
     \<lparr>parts = [], relationships = [], originURI = [], nextRelID = 1,
      path = pth, readWrite = rw, sink = snk\<rparr>"

definition pathFromUri :: "url \<Rightarrow> string" where
  "pathFromUri uri = (if pathname uri = [] then href uri else pathname uri)"

definition normalizeURI :: "url option \<Rightarrow> string" where
  "normalizeURI uri =
     (case uri of
        None \<Rightarrow> []
      | Some u \<Rightarrow>
          let v = pathFromUri u
          in normalizePathForMap (if startsWith v ''/'' then v else ''/'' @ v))"

section \<open>Contract checks\<close>

text \<open>
  The functions \<open>Require\<close> and \<open>Ensure\<close> of the contract module \<open>dbc\<close>: each throws an
  \<open>Error\<close> whose message is \<open>ErrPreconditionViolation\<close> ("precondition violation") or
  \<open>ErrPostconditionViolation\<close> ("postcondition violation"), a colon, a space and the
  message given, when the condition is false and
  \<open>isDebugContractsEnabled()\<close> is true, and returns otherwise. The first argument is the
  value of \<open>isDebugContractsEnabled()\<close>, which the module reads from the global
  \<open>__AASX_DEBUG_CONTRACTS__\<close> or from the environment.
\<close>

definition Require :: "bool \<Rightarrow> bool \<Rightarrow> string \<Rightarrow> string + unit" where
  "Require dbg cond msg =
     (if dbg \<and> \<not> cond then Inl (''precondition violation: '' @ msg) else Inr ())"

definition Ensure :: "bool \<Rightarrow> bool \<Rightarrow> string \<Rightarrow> string + unit" where
  "Ensure dbg cond msg =
     (if dbg \<and> \<not> cond then Inl (''postcondition violation: '' @ msg) else Inr ())"

section \<open>Relationship graph\<close>

definition bucket :: "'b PackageBase \<Rightarrow> string \<Rightarrow> Relationship list" where
  "bucket pkg k = (case map_of (relationships pkg) k of None \<Rightarrow> [] | Some rels \<Rightarrow> rels)"

definition addRelationshipWithID ::
  "'b PackageBase \<Rightarrow> string \<Rightarrow> string \<Rightarrow> string \<Rightarrow> string \<Rightarrow> 'b PackageBase \<times> string" where
  "addRelationshipWithID pkg sourcePath targetPath rt rid =
     (let normalizedSource = normalizePathForMap sourcePath;
          existing = bucket pkg normalizedSource
      in (pkg\<lparr>relationships :=
                AList.update normalizedSource
                  (existing @ [\<lparr>relId = rid, relType = rt, target = targetPath,
                                targetMode = ''Internal''\<rparr>])
                  (relationships pkg)\<rparr>,
          rid))"

definition addRelationship ::
  "'b PackageBase \<Rightarrow> string \<Rightarrow> string \<Rightarrow> string \<Rightarrow> 'b PackageBase \<times> string" where
  "addRelationship pkg sourcePath targetPath rt =
     (let rid = ''R'' @ padStart (toString16 (nextRelID pkg)) 8 (CHR ''0'')
      in addRelationshipWithID (pkg\<lparr>nextRelID := nextRelID pkg + 1\<rparr>)
           sourcePath targetPath rt rid)"

definition removeRelationship ::
  "'b PackageBase \<Rightarrow> string \<Rightarrow> string \<Rightarrow> string \<Rightarrow> 'b PackageBase" where
  "removeRelationship pkg sourcePath targetPath rt =
     (let normalizedSource = normalizePathForMap sourcePath;
          normalizedTarget = normalizePathForMap targetPath;
          old = bucket pkg normalizedSource
      in pkg\<lparr>relationships :=
               AList.update normalizedSource
                 (filter (\<lambda>rel. \<not> (normalizePathForMap (target rel) = normalizedTarget
                                     \<and> relType rel = rt)) old)
                 (relationships pkg)\<rparr>)"

text \<open>
  The loop of \<open>removeAllRelationshipsWithSourceOrTarget\<close> visits every bucket that is left
  after the bucket of the path is deleted, once and in order; a bucket that becomes empty
  is deleted, any other is stored back under its key.
\<close>

definition removeAllRelationshipsWithSourceOrTarget ::
  "'b PackageBase \<Rightarrow> string \<Rightarrow> 'b PackageBase" where
  "removeAllRelationshipsWithSourceOrTarget pkg uriPath =
     (let normalizedPath = normalizePathForMap uriPath;
          rest = AList.delete normalizedPath (relationships pkg);
          filtered = map (\<lambda>(source, rels).
                           (source, filter (\<lambda>rel. normalizePathForMap (target rel)
                                                      \<noteq> normalizedPath) rels)) rest
      in pkg\<lparr>relationships := filter (\<lambda>(source, rels). rels \<noteq> []) filtered\<rparr>)"

definition hasRelationship :: "'b PackageBase \<Rightarrow> string \<Rightarrow> string \<Rightarrow> string \<Rightarrow> bool" where
  "hasRelationship pkg sourcePath targetPath rt =
     (let normalizedSource = normalizePathForMap sourcePath;
          normalizedTarget = normalizePathForMap targetPath
      in list_ex (\<lambda>rel. relType rel = rt \<and> normalizePathForMap (target rel) = normalizedTarget)
           (bucket pkg normalizedSource))"

definition getRelationshipsByType ::
  "'b PackageBase \<Rightarrow> string \<Rightarrow> string \<Rightarrow> Relationship list" where
  "getRelationshipsByType pkg sourcePath rt =
     filter (\<lambda>rel. relType rel = rt) (bucket pkg (normalizePathForMap sourcePath))"

section \<open>Read operations of the facade\<close>

text \<open>
  Every operation of the facade is asynchronous: it either resolves to a value (\<open>Inr\<close>) or
  rejects with an \<open>Error\<close>, of which the model keeps the message (\<open>Inl\<close>).
\<close>

definition Specs :: "'b PackageBase \<Rightarrow> string + 'b part list" where
  "Specs pkg =
     Inr (List.map_filter (\<lambda>rel. map_of (parts pkg) (normalizePathForMap (target rel)))
            (getRelationshipsByType pkg (originURI pkg) RelationTypeAasxSpec))"

definition IsSpec :: "'b PackageBase \<Rightarrow> 'b part \<Rightarrow> bool" where
  "IsSpec pkg p = hasRelationship pkg (originURI pkg) (pathFromUri (URI p)) RelationTypeAasxSpec"

fun resolveSupplementaries ::
  "(string \<times> 'b part) list \<Rightarrow> Relationship list \<Rightarrow> string + 'b part list" where
  "resolveSupplementaries ps [] = Inr []"
| "resolveSupplementaries ps (rel # rels) =
     (case map_of ps (normalizePathForMap (target rel)) of
        None \<Rightarrow> Inl (''supplementary part '' @ target rel @ '' not found'')
      | Some p \<Rightarrow>
          (case resolveSupplementaries ps rels of
             Inl e \<Rightarrow> Inl e
           | Inr res \<Rightarrow> Inr (p # res)))"

definition SupplementariesFor :: "'b PackageBase \<Rightarrow> 'b part \<Rightarrow> string + 'b part list" where
  "SupplementariesFor pkg spec =
     resolveSupplementaries (parts pkg)
       (getRelationshipsByType pkg (pathFromUri (URI spec)) RelationTypeAasxSupplementary)"

fun relateAll :: "'b PackageBase \<Rightarrow> 'b part list \<Rightarrow> string + ('b part \<times> 'b part) list" where
  "relateAll pkg [] = Inr []"
| "relateAll pkg (spec # specs) =
     (case SupplementariesFor pkg spec of
        Inl e \<Rightarrow> Inl e
      | Inr sups \<Rightarrow>
          (case relateAll pkg specs of
             Inl e \<Rightarrow> Inl e
           | Inr res \<Rightarrow> Inr (map (\<lambda>su. (spec, su)) sups @ res)))"

text \<open>A pair of \<open>SupplementaryRelationships\<close> is (Spec, Supplementary).\<close>

definition SupplementaryRelationships ::
  "'b PackageBase \<Rightarrow> string + ('b part \<times> 'b part) list" where
  "SupplementaryRelationships pkg =
     (case Specs pkg of Inl e \<Rightarrow> Inl e | Inr specs \<Rightarrow> relateAll pkg specs)"

definition FindPart :: "'b PackageBase \<Rightarrow> url \<Rightarrow> 'b part option" where
  "FindPart pkg uri = map_of (parts pkg) (normalizeURI (Some uri))"

definition MustPart :: "'b PackageBase \<Rightarrow> url \<Rightarrow> string + 'b part" where
  "MustPart pkg uri =
     (case FindPart pkg uri of
        None \<Rightarrow> Inl (ErrPartNotFound @ '': '' @ pathFromUri uri)
      | Some p \<Rightarrow> Inr p)"

definition Thumbnail :: "'b PackageBase \<Rightarrow> string + 'b part option" where
  "Thumbnail pkg =
     (case getRelationshipsByType pkg [] RelationTypeThumbnail of
        [] \<Rightarrow> Inr None
      | rel # _ \<Rightarrow>
          (case map_of (parts pkg) (normalizePathForMap (target rel)) of
             None \<Rightarrow> Inl (''thumbnail relationship exists but part not found: '' @ target rel)
           | Some p \<Rightarrow> Inr (Some p)))"

section \<open>Write operations of the facade\<close>

definition PutPart ::
  "bool \<Rightarrow> 'b PackageBase \<Rightarrow> url \<Rightarrow> string \<Rightarrow> 'b \<Rightarrow> string + ('b PackageBase \<times> 'b part)" where
  "PutPart dbg pkg uri ct bytes =
     (let normalized = normalizeURI (Some uri);
          p = (case map_of (parts pkg) normalized of
                 Some old \<Rightarrow> old\<lparr>ContentType := ct, content := bytes\<rparr>
               | None \<Rightarrow> \<lparr>URI = uri, ContentType = ct, content = bytes\<rparr>);
          pkg' = pkg\<lparr>parts := AList.update normalized p (parts pkg)\<rparr>
      in case Ensure dbg (map_of (parts pkg') normalized \<noteq> None)
                ''The part should be included in the package.'' of
           Inl e \<Rightarrow> Inl e
         | Inr _ \<Rightarrow> Inr (pkg', p))"

definition DeletePart :: "bool \<Rightarrow> 'b PackageBase \<Rightarrow> 'b part \<Rightarrow> string + 'b PackageBase" where
  "DeletePart dbg pkg p =
     (let normalized = normalizeURI (Some (URI p));
          pkg1 = pkg\<lparr>parts := AList.delete normalized (parts pkg)\<rparr>;
          pkg2 = removeAllRelationshipsWithSourceOrTarget pkg1 (pathFromUri (URI p))
      in case Ensure dbg (map_of (parts pkg2) normalized = None)
                ''The part should not exist in the package anymore.'' of
           Inl e \<Rightarrow> Inl e
         | Inr _ \<Rightarrow> Inr pkg2)"

definition MakeSpec :: "'b PackageBase \<Rightarrow> 'b part \<Rightarrow> string + 'b PackageBase" where
  "MakeSpec pkg p =
     (if hasRelationship pkg (originURI pkg) (pathFromUri (URI p)) RelationTypeAasxSpec
      then Inr pkg
      else Inr (fst (addRelationship pkg (originURI pkg) (pathFromUri (URI p))
                       RelationTypeAasxSpec)))"

definition UnmakeSpec :: "bool \<Rightarrow> 'b PackageBase \<Rightarrow> 'b part \<Rightarrow> string + 'b PackageBase" where
  "UnmakeSpec dbg pkg p =
     (let isSpec = hasRelationship pkg (originURI pkg) (pathFromUri (URI p)) RelationTypeAasxSpec
      in case Require dbg isSpec ''The part fulfills the spec property.'' of
           Inl e \<Rightarrow> Inl e
         | Inr _ \<Rightarrow>
             let pkg1 = removeRelationship pkg (originURI pkg) (pathFromUri (URI p))
                          RelationTypeAasxSpec
             in Inr (pkg1\<lparr>relationships :=
                            AList.delete (normalizeURI (Some (URI p))) (relationships pkg1)\<rparr>))"

definition RelateSupplementaryToSpec ::
  "bool \<Rightarrow> 'b PackageBase \<Rightarrow> 'b part \<Rightarrow> 'b part \<Rightarrow> string + 'b PackageBase" where
  "RelateSupplementaryToSpec dbg pkg supplementary spec =
     (let isSpec = hasRelationship pkg (originURI pkg) (pathFromUri (URI spec))
                     RelationTypeAasxSpec
      in case Require dbg isSpec ''The part fulfills the spec property.'' of
           Inl e \<Rightarrow> Inl e
         | Inr _ \<Rightarrow>
             if hasRelationship pkg (pathFromUri (URI spec)) (pathFromUri (URI supplementary))
                  RelationTypeAasxSupplementary
             then Inr pkg
             else Inr (fst (addRelationship pkg (pathFromUri (URI spec))
                              (pathFromUri (URI supplementary)) RelationTypeAasxSupplementary)))"

definition UnrelateSupplementaryFromSpec ::
  "bool \<Rightarrow> 'b PackageBase \<Rightarrow> 'b part \<Rightarrow> 'b part \<Rightarrow> string + 'b PackageBase" where
  "UnrelateSupplementaryFromSpec dbg pkg supplementary spec =
     (let isSpec = hasRelationship pkg (originURI pkg) (pathFromUri (URI spec))
                     RelationTypeAasxSpec
      in case Require dbg isSpec ''The part fulfills the spec property.'' of
           Inl e \<Rightarrow> Inl e
         | Inr _ \<Rightarrow>
             Inr (removeRelationship pkg (pathFromUri (URI spec))
                    (pathFromUri (URI supplementary)) RelationTypeAasxSupplementary))"

text \<open>
  The loop of \<open>SetThumbnail\<close> and \<open>UnsetThumbnail\<close> runs over the thumbnail relationships
  found before the first removal.
\<close>

definition removeThumbnails :: "'b PackageBase \<Rightarrow> 'b PackageBase" where
  "removeThumbnails pkg =
     foldl (\<lambda>q rel. removeRelationship q [] (target rel) RelationTypeThumbnail) pkg
       (getRelationshipsByType pkg [] RelationTypeThumbnail)"

definition SetThumbnail :: "'b PackageBase \<Rightarrow> 'b part \<Rightarrow> string + 'b PackageBase" where
  "SetThumbnail pkg p =
     Inr (fst (addRelationship (removeThumbnails pkg) [] (pathFromUri (URI p))
                 RelationTypeThumbnail))"

definition UnsetThumbnail :: "'b PackageBase \<Rightarrow> string + 'b PackageBase" where
  "UnsetThumbnail pkg = Inr (removeThumbnails pkg)"

section \<open>The host platform\<close>

text \<open>
  An XML node as the XML library gives and takes it: a name, attributes and children, a
  child being a text or a node. Absent attributes or children are the empty list.
\<close>

datatype XmlNodeLike =
  XmlNodeLike (name: string) (attributes: "(string \<times> string) list")
    (children: "(string + XmlNodeLike) list")

text \<open>
  The libraries the package calls are parameters of the model, gathered in one record:
  the zip codec (\<open>zipSync\<close> with store-level entries, \<open>unzipSync\<close>), the XML codec
  (\<open>serializeXml\<close> with the pretty and declaration options, \<open>parseXmlString\<close>), the UTF-8
  codec of \<open>TextEncoder\<close> and \<open>TextDecoder\<close>, the URL parser \<open>new URL\<close> and the
  collation \<open>localeCompare\<close>. A function that can throw returns the message of its error
  on the left. An archive is the list of its entries, name and bytes, in the order
  \<open>Object.keys\<close> gives them.
\<close>

record 'b platform =
  zipSync :: "(string \<times> 'b) list \<Rightarrow> 'b"
  unzipSync :: "'b \<Rightarrow> string + (string \<times> 'b) list"
  serializeXml :: "XmlNodeLike \<Rightarrow> string"
  parseXmlString :: "string \<Rightarrow> string + XmlNodeLike"
  encodeUtf8 :: "string \<Rightarrow> 'b"
  decodeUtf8 :: "'b \<Rightarrow> string"
  newURL :: "string \<Rightarrow> url"
  localeCompare :: "string \<Rightarrow> string \<Rightarrow> int"

definition asPackageUrl :: "'b platform \<Rightarrow> string \<Rightarrow> url" where
  "asPackageUrl P p = newURL P (''https://package.local'' @ ensureLeadingSlash p)"

text \<open>
  \<open>Array.prototype.sort\<close> with a comparator is a stable sort: an element goes before the
  first element of the sorted rest that it does not exceed.
\<close>

fun insertBy :: "('a \<Rightarrow> 'a \<Rightarrow> int) \<Rightarrow> 'a \<Rightarrow> 'a list \<Rightarrow> 'a list" where
  "insertBy cmp x [] = [x]"
| "insertBy cmp x (y # ys) = (if cmp x y \<le> 0 then x # y # ys else y # insertBy cmp x ys)"

definition sortBy :: "('a \<Rightarrow> 'a \<Rightarrow> int) \<Rightarrow> 'a list \<Rightarrow> 'a list" where
  "sortBy cmp xs = foldr (insertBy cmp) xs []"

section \<open>Content types and relationship documents\<close>

text \<open>The truth value of \<open>map.get(key)\<close> for strings: present and not empty.\<close>

definition truthy :: "string option \<Rightarrow> bool" where
  "truthy v = (v \<noteq> None \<and> v \<noteq> Some [])"

definition contentTypeStep ::
  "(string \<times> string) list \<times> (string \<times> string) list \<Rightarrow> 'b part
     \<Rightarrow> (string \<times> string) list \<times> (string \<times> string) list" where
  "contentTypeStep acc p =
     (let extMap = fst acc; overrides = snd acc;
          pth = pathFromUri (URI p);
          ext = toLowerCase (removeFirst (extName pth) (CHR ''.''))
      in if ext = [] then (extMap, AList.update pth (ContentType p) overrides)
         else let existing = map_of extMap ext
              in if truthy existing \<and> existing \<noteq> Some (ContentType p)
                 then (extMap, AList.update pth (ContentType p) overrides)
                 else if \<not> truthy existing
                 then (AList.update ext (ContentType p) extMap, overrides)
                 else (extMap, overrides))"

definition collectContentTypes ::
  "(string \<times> 'b part) list \<Rightarrow> (string \<times> string) list \<times> (string \<times> string) list" where
  "collectContentTypes ps = foldl contentTypeStep ([], []) (map snd ps)"

definition relsDefault :: "string \<times> string" where
  "relsDefault = (''rels'', ''application/vnd.openxmlformats-package.relationships+xml'')"

definition contentTypeDefaults :: "'b platform \<Rightarrow> (string \<times> 'b part) list \<Rightarrow> (string \<times> string) list" where
  "contentTypeDefaults P ps =
     relsDefault # sortBy (\<lambda>l r. localeCompare P (fst l) (fst r)) (fst (collectContentTypes ps))"

definition contentTypeOverrides :: "'b platform \<Rightarrow> (string \<times> 'b part) list \<Rightarrow> (string \<times> string) list" where
  "contentTypeOverrides P ps =
     sortBy (\<lambda>l r. localeCompare P (fst l) (fst r)) (snd (collectContentTypes ps))"

definition defaultElement :: "string \<times> string \<Rightarrow> string + XmlNodeLike" where
  "defaultElement item =
     Inr (XmlNodeLike ''Default'' [(''Extension'', fst item), (''ContentType'', snd item)] [])"

definition overrideElement :: "string \<times> string \<Rightarrow> string + XmlNodeLike" where
  "overrideElement item =
     Inr (XmlNodeLike ''Override'' [(''PartName'', fst item), (''ContentType'', snd item)] [])"

definition contentTypesDocument :: "'b platform \<Rightarrow> (string \<times> 'b part) list \<Rightarrow> XmlNodeLike" where
  "contentTypesDocument P ps =
     XmlNodeLike ''Types'' [(''xmlns'', OpcContentTypesNamespace)]
       (map defaultElement (contentTypeDefaults P ps)
        @ map overrideElement (contentTypeOverrides P ps))"

definition buildContentTypesXml :: "'b platform \<Rightarrow> (string \<times> 'b part) list \<Rightarrow> string" where
  "buildContentTypesXml P ps = serializeXml P (contentTypesDocument P ps) @ [CHR 0x0A]"

definition relationshipElement :: "Relationship \<Rightarrow> string + XmlNodeLike" where
  "relationshipElement rel =
     Inr (XmlNodeLike ''Relationship''
            ([(''Id'', relId rel), (''Type'', relType rel), (''Target'', target rel)]
             @ (if targetMode rel \<noteq> [] \<and> targetMode rel \<noteq> ''Internal''
                then [(''TargetMode'', targetMode rel)] else []))
            [])"

definition relationshipsDocument :: "Relationship list \<Rightarrow> XmlNodeLike" where
  "relationshipsDocument rels =
     XmlNodeLike ''Relationships'' [(''xmlns'', OpcRelationshipNamespace)]
       (map relationshipElement rels)"

definition buildRelationshipsXml :: "'b platform \<Rightarrow> Relationship list \<Rightarrow> string" where
  "buildRelationshipsXml P rels = serializeXml P (relationshipsDocument rels) @ [CHR 0x0A]"

text \<open>\<open>!v\<close> for an attribute: absent or empty.\<close>

definition falsy :: "string option \<Rightarrow> bool" where
  "falsy v = (v = None \<or> v = Some [])"

definition relationshipOfChild :: "string + XmlNodeLike \<Rightarrow> Relationship option" where
  "relationshipOfChild child =
     (case child of
        Inl _ \<Rightarrow> None
      | Inr node \<Rightarrow>
          if name node \<noteq> ''Relationship'' then None
          else let attrs = attributes node;
                   i = map_of attrs ''Id''; t = map_of attrs ''Type''; g = map_of attrs ''Target''
               in if falsy i \<or> falsy t \<or> falsy g then None
                  else Some \<lparr>relId = the i, relType = the t, target = the g,
                             targetMode = (case map_of attrs ''TargetMode'' of
                                             None \<Rightarrow> ''Internal'' | Some m \<Rightarrow> m)\<rparr>)"

definition parseRelationshipsXml :: "'b platform \<Rightarrow> string \<Rightarrow> string + Relationship list" where
  "parseRelationshipsXml P xml =
     (case parseXmlString P xml of
        Inl e \<Rightarrow> Inl e
      | Inr root \<Rightarrow>
          if name root \<noteq> ''Relationships'' then Inr []
          else Inr (List.map_filter relationshipOfChild (children root)))"

definition defaultOfChild :: "string + XmlNodeLike \<Rightarrow> (string \<times> string) option" where
  "defaultOfChild child =
     (case child of
        Inl _ \<Rightarrow> None
      | Inr node \<Rightarrow>
          if name node = ''Default''
          then let e = map_of (attributes node) ''Extension'';
                   c = map_of (attributes node) ''ContentType''
               in if \<not> falsy e \<and> \<not> falsy c then Some (the e, the c) else None
          else None)"

definition overrideOfChild :: "string + XmlNodeLike \<Rightarrow> (string \<times> string) option" where
  "overrideOfChild child =
     (case child of
        Inl _ \<Rightarrow> None
      | Inr node \<Rightarrow>
          if name node = ''Default'' then None
          else if name node = ''Override''
          then let n = map_of (attributes node) ''PartName'';
                   c = map_of (attributes node) ''ContentType''
               in if \<not> falsy n \<and> \<not> falsy c then Some (the n, the c) else None
          else None)"

text \<open>The result of \<open>parseContentTypesXml\<close> is the pair (defaults, overrides).\<close>

definition parseContentTypesXml ::
  "'b platform \<Rightarrow> string \<Rightarrow> string + ((string \<times> string) list \<times> (string \<times> string) list)" where
  "parseContentTypesXml P xml =
     (case parseXmlString P xml of
        Inl e \<Rightarrow> Inl e
      | Inr root \<Rightarrow>
          if name root \<noteq> ''Types'' then Inr ([], [])
          else Inr (List.map_filter defaultOfChild (children root),
                    List.map_filter overrideOfChild (children root)))"

section \<open>Creating, writing and opening a package\<close>

definition initializeNewPackage :: "'b platform \<Rightarrow> 'b PackageBase \<Rightarrow> 'b PackageBase" where
  "initializeNewPackage P pkg =
     (let originUri = asPackageUrl P ''/aasx/aasx-origin'';
          origin = \<lparr>URI = originUri, ContentType = ''text/plain'',
                    content = encodeUtf8 P ''Intentionally empty.''\<rparr>;
          pkg1 = pkg\<lparr>parts := AList.update (normalizeURI (Some originUri)) origin (parts pkg)\<rparr>;
          pkg2 = pkg1\<lparr>originURI := normalizeURI (Some originUri)\<rparr>
      in fst (addRelationship pkg2 [] (pathFromUri originUri) RelationTypeAasxOrigin))"

definition CreateInStream :: "'b platform \<Rightarrow> 'b PackageBase" where
  "CreateInStream P = initializeNewPackage P (newPackageBase [] True (Some StreamSink))"


definition writeRelationshipFiles ::
  "'b platform \<Rightarrow> (string \<times> 'b) list \<Rightarrow> (string \<times> Relationship list) list \<Rightarrow> (string \<times> 'b) list" where
  "writeRelationshipFiles P files buckets =
     foldl (\<lambda>fs (sourcePath, rels).
              if rels = [] then fs
              else AList.update (trimLeadingSlash (getRelsPath sourcePath))
                     (encodeUtf8 P (buildRelationshipsXml P rels)) fs)
       files buckets"

definition writePartFiles :: "(string \<times> 'b) list \<Rightarrow> (string \<times> 'b part) list \<Rightarrow> (string \<times> 'b) list" where
  "writePartFiles files ps =
     foldl (\<lambda>fs (k, p). AList.update (trimLeadingSlash (pathFromUri (URI p))) (content p) fs)
       files ps"

definition packageFiles :: "'b platform \<Rightarrow> 'b PackageBase \<Rightarrow> (string \<times> 'b) list" where
  "packageFiles P pkg =
     (let files0 = AList.update ''[Content_Types].xml''
                     (encodeUtf8 P (buildContentTypesXml P (parts pkg))) [];
          files1 = writeRelationshipFiles P files0 (relationships pkg)
      in writePartFiles files1 (parts pkg))"

definition writeToBytes :: "'b platform \<Rightarrow> 'b PackageBase \<Rightarrow> 'b" where
  "writeToBytes P pkg = zipSync P (packageFiles P pkg)"

text \<open>\<open>Flush\<close> gives the bytes and, when the package has a sink, the write to it.\<close>

definition Flush :: "'b platform \<Rightarrow> 'b PackageBase \<Rightarrow> 'b \<times> (PackageSink \<times> 'b) option" where
  "Flush P pkg =
     (let bytes = writeToBytes P pkg
      in (bytes, case sink pkg of None \<Rightarrow> None | Some k \<Rightarrow> Some (k, bytes)))"

definition loadContentTypes ::
  "'b platform \<Rightarrow> (string \<times> 'b) list
     \<Rightarrow> string + ((string \<times> string) list \<times> (string \<times> string) list)" where
  "loadContentTypes P entries =
     (case map_of entries ''[Content_Types].xml'' of
        None \<Rightarrow> Inr ([], [])
      | Some d \<Rightarrow>
          (case parseContentTypesXml P (decodeUtf8 P d) of
             Inl e \<Rightarrow> Inl e
           | Inr parsed \<Rightarrow>
               Inr (foldl (\<lambda>m item. AList.update (toLowerCase (fst item)) (snd item) m)
                      [] (fst parsed),
                    foldl (\<lambda>m item. AList.update (normalizePathForMap (fst item)) (snd item) m)
                      [] (snd parsed))))"

definition loadRelationship :: "string \<Rightarrow> 'b PackageBase \<Rightarrow> Relationship \<Rightarrow> 'b PackageBase" where
  "loadRelationship sourcePath pkg rel =
     (let targetPath = resolveRelativeURI sourcePath (target rel);
          pkg1 = fst (addRelationshipWithID pkg sourcePath targetPath (relType rel) (relId rel))
      in if relType rel = RelationTypeAasxOrigin \<and> sourcePath = []
         then pkg1\<lparr>originURI := normalizePathForMap targetPath\<rparr>
         else pkg1)"

fun loadRelationships ::
  "'b platform \<Rightarrow> (string \<times> 'b) list \<Rightarrow> 'b PackageBase \<Rightarrow> string + 'b PackageBase" where
  "loadRelationships P [] pkg = Inr pkg"
| "loadRelationships P ((nm, d) # entries) pkg =
     (if includesStr nm ''_rels/'' \<and> endsWith nm ''.rels''
      then (case parseRelationshipsXml P (decodeUtf8 P d) of
              Inl e \<Rightarrow> Inl e
            | Inr rels \<Rightarrow>
                loadRelationships P entries
                  (foldl (loadRelationship (getSourcePathFromRelsPath nm)) pkg rels))
      else loadRelationships P entries pkg)"

definition loadPart ::
  "'b platform \<Rightarrow> (string \<times> string) list \<Rightarrow> (string \<times> string) list
     \<Rightarrow> 'b PackageBase \<Rightarrow> string \<times> 'b \<Rightarrow> 'b PackageBase" where
  "loadPart P defaultTypes contentTypesMap pkg entry =
     (let nm = fst entry
      in if nm = ''[Content_Types].xml'' \<or> includesStr nm ''_rels/'' \<or> endsWith nm ''/''
         then pkg
         else let partPath = ensureLeadingSlash nm;
                  normalized = normalizePathForMap partPath;
                  ct0 = (case map_of contentTypesMap normalized of None \<Rightarrow> [] | Some c \<Rightarrow> c);
                  ct = (if ct0 = []
                        then (case map_of defaultTypes
                                     (toLowerCase (removeFirst (extName nm) (CHR ''.''))) of
                                None \<Rightarrow> ''application/octet-stream''
                              | Some c \<Rightarrow> c)
                        else ct0);
                  uri = asPackageUrl P partPath
              in pkg\<lparr>parts := AList.update normalized
                                 \<lparr>URI = uri, ContentType = ct, content = snd entry\<rparr>
                                 (parts pkg)\<rparr>)"

text \<open>
  The body of the \<open>try\<close> block of \<open>openFromBytes\<close>, then the \<open>catch\<close>: the error of a missing
  origin goes through as it is, every other error is wrapped as an invalid format.
\<close>

definition openBody ::
  "'b platform \<Rightarrow> 'b \<Rightarrow> string \<Rightarrow> bool \<Rightarrow> PackageSink option \<Rightarrow> string + 'b PackageBase" where
  "openBody P bytes pth rw snk =
     (case unzipSync P bytes of
        Inl e \<Rightarrow> Inl e
      | Inr entries \<Rightarrow>
          (case loadContentTypes P entries of
             Inl e \<Rightarrow> Inl e
           | Inr tables \<Rightarrow>
               (case loadRelationships P entries (newPackageBase pth rw snk) of
                  Inl e \<Rightarrow> Inl e
                | Inr pkg \<Rightarrow>
                    if originURI pkg = [] then Inl ErrNoOriginPart
                    else Inr (foldl (loadPart P (fst tables) (snd tables)) pkg entries))))"

definition openFromBytes ::
  "'b platform \<Rightarrow> 'b \<Rightarrow> string \<Rightarrow> bool \<Rightarrow> PackageSink option \<Rightarrow> string + 'b PackageBase" where
  "openFromBytes P bytes pth rw snk =
     (case openBody P bytes pth rw snk of
        Inl msg \<Rightarrow> if msg = ErrNoOriginPart then Inl msg
                   else Inl (ErrInvalidFormat @ '': '' @ msg)
      | Inr pkg \<Rightarrow> Inr pkg)"

definition OpenReadFromBytes :: "'b platform \<Rightarrow> 'b \<Rightarrow> string + 'b PackageBase" where
  "OpenReadFromBytes P bytes = openFromBytes P bytes [] False None"

definition OpenReadWriteFromBytes :: "'b platform \<Rightarrow> 'b \<Rightarrow> string + 'b PackageBase" where
  "OpenReadWriteFromBytes P bytes = openFromBytes P bytes [] True None"

section \<open>A reference platform\<close>

text \<open>
  One platform on which the assumptions made of the libraries hold, so that the package
  can be run on concrete inputs. Bytes are either plain data or an archive with its
  entries; a document is written in a length-prefixed notation after a fixed header; a
  URL keeps the path it is given; strings are compared by their character codes.
\<close>

datatype blob = Raw string | Zip "(string \<times> blob) list"

definition encField :: "string \<Rightarrow> string" where
  "encField s = replicate (length s) (CHR ''#'') @ '':'' @ s"

definition decField :: "string \<Rightarrow> string \<times> string" where
  "decField t =
     (let n = length (takeWhile (\<lambda>c. c = CHR ''#'') t); r = drop (Suc n) t
      in (take n r, drop n r))"

definition encAttributes :: "(string \<times> string) list \<Rightarrow> string" where
  "encAttributes attrs =
     replicate (length attrs) (CHR ''#'') @ '':''
     @ concat (map (\<lambda>kv. encField (fst kv) @ encField (snd kv)) attrs)"

fun decAttributesN :: "nat \<Rightarrow> string \<Rightarrow> (string \<times> string) list \<times> string" where
  "decAttributesN 0 t = ([], t)"
| "decAttributesN (Suc n) t =
     (let kr = decField t; vr = decField (snd kr); rest = decAttributesN n (snd vr)
      in ((fst kr, fst vr) # fst rest, snd rest))"

definition decAttributes :: "string \<Rightarrow> (string \<times> string) list \<times> string" where
  "decAttributes t =
     (let n = length (takeWhile (\<lambda>c. c = CHR ''#'') t) in decAttributesN n (drop (Suc n) t))"

definition encElement :: "XmlNodeLike \<Rightarrow> string" where
  "encElement node = encField (name node) @ encAttributes (attributes node)"

definition decElement :: "string \<Rightarrow> XmlNodeLike \<times> string" where
  "decElement t =
     (let nr = decField t; ar = decAttributes (snd nr)
      in (XmlNodeLike (fst nr) (fst ar) [], snd ar))"

fun decElementsN :: "nat \<Rightarrow> string \<Rightarrow> (string + XmlNodeLike) list" where
  "decElementsN 0 t = []"
| "decElementsN (Suc n) t = (let er = decElement t in Inr (fst er) # decElementsN n (snd er))"

definition elementChildren :: "XmlNodeLike \<Rightarrow> XmlNodeLike list" where
  "elementChildren node = List.map_filter (\<lambda>c. case c of Inl _ \<Rightarrow> None | Inr n \<Rightarrow> Some n) (children node)"

definition refSerializeXml :: "XmlNodeLike \<Rightarrow> string" where
  "refSerializeXml node =
     ''<?xml?>'' @ encElement node
     @ replicate (length (elementChildren node)) (CHR ''#'') @ '':''
     @ concat (map encElement (elementChildren node))"

definition refParseXmlString :: "string \<Rightarrow> string + XmlNodeLike" where
  "refParseXmlString t =
     (if \<not> prefix ''<?xml?>'' t then Inl ''malformed document''
      else let er = decElement (drop 7 t);
               n = length (takeWhile (\<lambda>c. c = CHR ''#'') (snd er))
           in Inr (XmlNodeLike (name (fst er)) (attributes (fst er))
                     (decElementsN n (drop (Suc n) (snd er)))))"

definition refCompare :: "string \<Rightarrow> string \<Rightarrow> int" where
  "refCompare a b = (if a < b then - 1 else if a = b then 0 else 1)"

definition refPlatform :: "blob platform" where
  "refPlatform =
     \<lparr>zipSync = Zip,
      unzipSync = (\<lambda>b. case b of Raw _ \<Rightarrow> Inl ''invalid zip data'' | Zip es \<Rightarrow> Inr es),
      serializeXml = refSerializeXml,
      parseXmlString = refParseXmlString,
      encodeUtf8 = Raw,
      decodeUtf8 = (\<lambda>b. case b of Raw t \<Rightarrow> t | Zip _ \<Rightarrow> []),
      newURL = (\<lambda>h. \<lparr>pathname = drop 21 h, href = h\<rparr>),
      localeCompare = refCompare\<rparr>"

section \<open>Reading an identifier back\<close>

definition hexDigitValue :: "char \<Rightarrow> nat" where
  "hexDigitValue c = (if of_char c < (58::nat) then of_char c - 48 else of_char c - 87)"

definition hexValue :: "string \<Rightarrow> nat" where
  "hexValue s = foldl (\<lambda>acc c. 16 * acc + hexDigitValue c) 0 s"

text \<open>The number an identifier \<open>R\<close>... stands for.\<close>

definition idNumber :: "string \<Rightarrow> nat" where
  "idNumber rid = hexValue (drop 1 rid)"

section \<open>Sequences of calls\<close>

text \<open>Running calls one after the other stops at the first one that fails.\<close>

fun applyAll :: "('s \<Rightarrow> 'a \<Rightarrow> string + 's) \<Rightarrow> 's \<Rightarrow> 'a list \<Rightarrow> string + 's" where
  "applyAll f s [] = Inr s"
| "applyAll f s (x # xs) = (case f s x of Inl e \<Rightarrow> Inl e | Inr s' \<Rightarrow> applyAll f s' xs)"

text \<open>Every part is registered under the canonical path of its own URI.\<close>

definition partsKeyed :: "'b PackageBase \<Rightarrow> bool" where
  "partsKeyed pkg = list_all (\<lambda>kp. fst kp = normalizeURI (Some (URI (snd kp)))) (parts pkg)"


text \<open>The four calls a package is built with.\<close>

datatype 'b call =
    CallPutPart url string 'b
  | CallMakeSpec "'b part"
  | CallRelateSupplementaryToSpec "'b part" "'b part"
  | CallSetThumbnail "'b part"

fun applyCall :: "bool \<Rightarrow> 'b PackageBase \<Rightarrow> 'b call \<Rightarrow> string + 'b PackageBase" where
  "applyCall dbg pkg (CallPutPart uri ct bytes) =
     (case PutPart dbg pkg uri ct bytes of Inl e \<Rightarrow> Inl e | Inr r \<Rightarrow> Inr (fst r))"
| "applyCall dbg pkg (CallMakeSpec p) = MakeSpec pkg p"
| "applyCall dbg pkg (CallRelateSupplementaryToSpec su spec) =
     RelateSupplementaryToSpec dbg pkg su spec"
| "applyCall dbg pkg (CallSetThumbnail p) = SetThumbnail pkg p"

section \<open>Example packages\<close>

text \<open>
  A package on the reference platform with a spec, a supplementary document related to
  it and a thumbnail; a package whose only spec relationship points at a deleted part;
  and a package with a supplementary relationship and a thumbnail relationship to a part
  that was never registered.
\<close>

definition exampleUrl :: "string \<Rightarrow> url" where
  "exampleUrl p = \<lparr>pathname = p, href = ''https://package.local'' @ p\<rparr>"

definition examplePart :: "string \<Rightarrow> string \<Rightarrow> blob part" where
  "examplePart p ct = \<lparr>URI = exampleUrl p, ContentType = ct, content = Raw ''data''\<rparr>"

definition exampleSpec :: "blob part" where
  "exampleSpec = examplePart ''/aasx/Spec.aas.xml'' ''application/xml''"

definition exampleDoc :: "blob part" where
  "exampleDoc = examplePart ''/aasx/doc.pdf'' ''application/pdf''"

definition exampleThumb :: "blob part" where
  "exampleThumb = examplePart ''/aasx/thumb.png'' ''image/png''"

definition exampleCalls :: "blob call list" where
  "exampleCalls =
     [CallPutPart (URI exampleSpec) (ContentType exampleSpec) (content exampleSpec),
      CallPutPart (URI exampleDoc) (ContentType exampleDoc) (content exampleDoc),
      CallPutPart (URI exampleThumb) (ContentType exampleThumb) (content exampleThumb),
      CallMakeSpec exampleSpec,
      CallRelateSupplementaryToSpec exampleDoc exampleSpec,
      CallSetThumbnail exampleThumb]"

definition examplePackage :: "blob PackageBase" where
  "examplePackage = projr (applyAll (applyCall True) (CreateInStream refPlatform) exampleCalls)"

definition danglingPackage :: "blob PackageBase" where
  "danglingPackage =
     projr (MakeSpec
              (projr (DeletePart True
                        (fst (projr (PutPart True (CreateInStream refPlatform) (URI exampleSpec)
                                       (ContentType exampleSpec) (content exampleSpec))))
                        exampleSpec))
              exampleSpec)"

definition exampleMissing :: "blob part" where
  "exampleMissing = examplePart ''/aasx/missing.pdf'' ''application/pdf''"

definition brokenPackage :: "blob PackageBase" where
  "brokenPackage =
     projr (applyAll (applyCall True) examplePackage
              [CallRelateSupplementaryToSpec exampleMissing exampleSpec,
               CallSetThumbnail exampleMissing])"


section \<open>Well-formed archives\<close>

text \<open>
  The documents of an archive parse: the content-types document, when there is one, and
  every relationship document. The origin relationships of the root are the relationships
  of origin type in the relationship documents whose source is the root.
\<close>

definition documentsParse :: "'b platform \<Rightarrow> (string \<times> 'b) list \<Rightarrow> bool" where
  "documentsParse P entries =
     ((case map_of entries ''[Content_Types].xml'' of
         None \<Rightarrow> True
       | Some d \<Rightarrow> \<not> isl (parseXmlString P (decodeUtf8 P d)))
      \<and> list_all (\<lambda>e. includesStr (fst e) ''_rels/'' \<and> endsWith (fst e) ''.rels''
                       \<longrightarrow> \<not> isl (parseXmlString P (decodeUtf8 P (snd e)))) entries)"

definition rootOriginRelationships :: "'b platform \<Rightarrow> (string \<times> 'b) list \<Rightarrow> Relationship list" where
  "rootOriginRelationships P entries =
     concat (map (\<lambda>e. if includesStr (fst e) ''_rels/'' \<and> endsWith (fst e) ''.rels''
                          \<and> getSourcePathFromRelsPath (fst e) = []
                       then (case parseRelationshipsXml P (decodeUtf8 P (snd e)) of
                               Inl _ \<Rightarrow> []
                             | Inr rels \<Rightarrow> filter (\<lambda>r. relType r = RelationTypeAasxOrigin) rels)
                       else [])
               entries)"

text \<open>An archive with a thumbnail relationship at the root and no origin relationship.\<close>

definition entriesWithoutOrigin :: "(string \<times> blob) list" where
  "entriesWithoutOrigin =
     [(''[Content_Types].xml'', Raw (buildContentTypesXml refPlatform [])),
      (''_rels/.rels'',
       Raw (buildRelationshipsXml refPlatform
              [\<lparr>relId = ''R1'', relType = RelationTypeThumbnail, target = ''/thumb.png'',
                targetMode = ''Internal''\<rparr>])),
      (''thumb.png'', Raw ''png'')]"


section \<open>Content types as the specification words them\<close>

text \<open>The extension of a part: of its path, without the dot, in lower case.\<close>

definition partExtension :: "'b part \<Rightarrow> string" where
  "partExtension p = toLowerCase (removeFirst (extName (pathFromUri (URI p))) (CHR ''.''))"

text \<open>The content type of the first part seen with the extension.\<close>

definition specDefault :: "'b part list \<Rightarrow> string \<Rightarrow> string option" where
  "specDefault ps e = map_option ContentType (find (\<lambda>p. partExtension p = e) ps)"

text \<open>
  A part is an override when it has no extension or a content type other than the one of
  the first part seen with its extension; the overrides are listed by path, in the order
  of the parts.
\<close>

definition isOverride :: "'b part list \<Rightarrow> 'b part \<Rightarrow> bool" where
  "isOverride ps p =
     (partExtension p = [] \<or> specDefault ps (partExtension p) \<noteq> Some (ContentType p))"

definition specOverrides :: "'b part list \<Rightarrow> (string \<times> string) list" where
  "specOverrides ps =
     map (\<lambda>p. (pathFromUri (URI p), ContentType p)) (filter (isOverride ps) ps)"

text \<open>A comparator that orders: any two strings compare one way or the other, transitively.\<close>

definition consistentCompare :: "(string \<Rightarrow> string \<Rightarrow> int) \<Rightarrow> bool" where
  "consistentCompare cmp =
     ((\<forall>a b. cmp a b \<le> 0 \<or> cmp b a \<le> 0)
      \<and> (\<forall>a b c. cmp a b \<le> 0 \<and> cmp b c \<le> 0 \<longrightarrow> cmp a c \<le> 0))"

text \<open>What the loop over the parts has collected after the parts \<open>xs\<close>.\<close>

definition collected ::
  "'b part list \<Rightarrow> (string \<times> string) list \<times> (string \<times> string) list \<Rightarrow> bool" where
  "collected xs acc =
     (distinct (map fst (fst acc))
      \<and> (\<forall>e. map_of (fst acc) e = (if e = [] then None else specDefault xs e))
      \<and> snd acc = specOverrides xs)"

text \<open>
  Two parts of one extension of which the first has the empty content type, and parts
  of mixed extensions and content types.
\<close>

definition emptyTypeParts :: "(string \<times> blob part) list" where
  "emptyTypeParts =
     [(''/a.txt'', examplePart ''/a.txt'' []),
      (''/b.txt'', examplePart ''/b.txt'' ''text/plain'')]"

definition mixedParts :: "(string \<times> blob part) list" where
  "mixedParts =
     [(''/b.xml'', examplePart ''/b.xml'' ''application/xml''),
      (''/a.xml'', examplePart ''/a.xml'' ''text/xml''),
      (''/readme'', examplePart ''/readme'' ''text/plain''),
      (''/c.xml'', examplePart ''/C.XML'' ''application/xml''),
      (''/a.json'', examplePart ''/a.json'' ''application/json'')]"


section \<open>An archive with a space in an entry name\<close>

text \<open>
  \<open>new URL\<close> writes a space of a path as \<open>%20\<close>; the reference platform with such a parser.
  The archive holds an origin, a spec under the entry name \<open>aasx/my file.xml\<close>, which the
  relationship of the origin targets by that name, and a document that the relationships
  of the URI path of the spec make its supplementary. The two parts are as
  \<open>openFromBytes\<close> makes them.
\<close>

definition escapeSpaces :: "string \<Rightarrow> string" where
  "escapeSpaces s = concat (map (\<lambda>c. if c = CHR '' '' then ''%20'' else [c]) s)"

definition escapingPlatform :: "blob platform" where
  "escapingPlatform =
     refPlatform\<lparr>newURL := (\<lambda>h. \<lparr>pathname = escapeSpaces (drop 21 h), href = escapeSpaces h\<rparr>)\<rparr>"

definition spacedEntries :: "(string \<times> blob) list" where
  "spacedEntries =
     [(''[Content_Types].xml'', Raw (buildContentTypesXml refPlatform [])),
      (''_rels/.rels'',
       Raw (buildRelationshipsXml refPlatform
              [\<lparr>relId = ''R1'', relType = RelationTypeAasxOrigin, target = ''/aasx/aasx-origin'',
                targetMode = ''Internal''\<rparr>])),
      (''aasx/_rels/aasx-origin.rels'',
       Raw (buildRelationshipsXml refPlatform
              [\<lparr>relId = ''R2'', relType = RelationTypeAasxSpec, target = ''/aasx/my file.xml'',
                targetMode = ''Internal''\<rparr>])),
      (''aasx/_rels/my%20file.xml.rels'',
       Raw (buildRelationshipsXml refPlatform
              [\<lparr>relId = ''R3'', relType = RelationTypeAasxSupplementary,
                target = ''/aasx/doc.pdf'', targetMode = ''Internal''\<rparr>])),
      (''aasx/aasx-origin'', Raw ''Intentionally empty.''),
      (''aasx/my file.xml'', Raw ''spec''),
      (''aasx/doc.pdf'', Raw ''doc'')]"

definition spacedPackage :: "blob PackageBase" where
  "spacedPackage = projr (OpenReadWriteFromBytes escapingPlatform (Zip spacedEntries))"

definition spacedSpec :: "blob part" where
  "spacedSpec =
     \<lparr>URI = \<lparr>pathname = ''/aasx/my%20file.xml'',
             href = ''https://package.local/aasx/my%20file.xml''\<rparr>,
      ContentType = ''application/octet-stream'', content = Raw ''spec''\<rparr>"

definition spacedDoc :: "blob part" where
  "spacedDoc =
     \<lparr>URI = \<lparr>pathname = ''/aasx/doc.pdf'', href = ''https://package.local/aasx/doc.pdf''\<rparr>,
      ContentType = ''application/octet-stream'', content = Raw ''doc''\<rparr>"

section \<open>The round trip through an archive\<close>

text \<open>
  A segment of a normal path is not empty, holds no slash and is neither \<open>.\<close> nor \<open>..\<close>;
  the segments of a path are what \<open>normalizePath\<close> keeps of it.
\<close>

definition segOK :: "string \<Rightarrow> bool" where
  "segOK s = (s \<noteq> [] \<and> CHR ''/'' \<notin> set s \<and> s \<noteq> ''.'' \<and> s \<noteq> ''..'')"

definition segsOf :: "string \<Rightarrow> string list" where
  "segsOf p = foldl normalizeStep [] (split p (CHR ''/''))"

































text \<open>
  A package with one spec whose content type is empty, and the package read from the
  bytes it is flushed to.
\<close>

definition untypedPart :: "blob part" where
  "untypedPart = examplePart ''/aasx/a.xml'' []"

definition untypedPackage :: "blob PackageBase" where
  "untypedPackage =
     projr (applyAll (applyCall True) (CreateInStream refPlatform)
              [CallPutPart (URI untypedPart) (ContentType untypedPart) (content untypedPart),
               CallMakeSpec untypedPart])"

definition untypedReopened :: "blob PackageBase" where
  "untypedReopened = projr (OpenReadFromBytes refPlatform (fst (Flush refPlatform untypedPackage)))"

section \<open>Properties\<close>

subsection \<open>Relationship identifiers\<close>

lemma hexDigitValue_hexDigit: "d < 16 \<Longrightarrow> hexDigitValue (hexDigit d) = d"
proof -
  assume "d < 16"
  then have "d = 0 \<or> d = 1 \<or> d = 2 \<or> d = 3 \<or> d = 4 \<or> d = 5 \<or> d = 6 \<or> d = 7 \<or> d = 8
      \<or> d = 9 \<or> d = 10 \<or> d = 11 \<or> d = 12 \<or> d = 13 \<or> d = 14 \<or> d = 15"
    by arith
  then show ?thesis
    by (elim disjE) (simp_all add: hexDigit_def hexDigitValue_def)
qed

lemma hexValue_snoc: "hexValue (s @ [c]) = 16 * hexValue s + hexDigitValue c"
  by (simp add: hexValue_def)

lemma hexValue_toString16: "hexValue (toString16 n) = n"
proof (induction n rule: toString16.induct)
  case (1 n)
  show ?case
  proof (cases "n < 16")
    case True
    then show ?thesis
      by (subst toString16.simps) (simp add: hexValue_def hexDigitValue_hexDigit)
  next
    case False
    with 1 have "hexValue (toString16 (n div 16)) = n div 16" by simp
    with False show ?thesis
      by (subst toString16.simps) (simp add: hexValue_snoc hexDigitValue_hexDigit)
  qed
qed

lemma hexValue_zeros: "hexValue (replicate k (CHR ''0'') @ s) = hexValue s"
proof -
  have z: "foldl (\<lambda>acc c. 16 * acc + hexDigitValue c) 0 (replicate k (CHR ''0'')) = 0"
    by (induction k) (simp_all add: hexDigitValue_def)
  show ?thesis by (simp add: hexValue_def z)
qed

lemma hexValue_padStart: "hexValue (padStart (toString16 n) k (CHR ''0'')) = n"
  by (simp add: padStart_def hexValue_zeros hexValue_toString16)

lemma length_toString16: "0 < k \<Longrightarrow> n < 16 ^ k \<Longrightarrow> length (toString16 n) \<le> k"
proof (induction n arbitrary: k rule: toString16.induct)
  case (1 n)
  show ?case
  proof (cases "n < 16")
    case True
    with 1(2) show ?thesis by (subst toString16.simps) simp
  next
    case False
    from 1(2) obtain j where k: "k = Suc j" by (cases k) auto
    have "j > 0" using False 1(3) k by (cases j) auto
    moreover have "n div 16 < 16 ^ j" using 1(3) k
      by (simp add: less_mult_imp_div_less mult.commute)
    ultimately have "length (toString16 (n div 16)) \<le> j" using 1(1) False by simp
    with False k show ?thesis by (subst toString16.simps) simp
  qed
qed

lemma length_padStart8: "n < 16 ^ 8 \<Longrightarrow> length (padStart (toString16 n) 8 (CHR ''0'')) = 8"
  using length_toString16 [of 8 n] by (simp add: padStart_def)

lemma nextRelID_addRelationshipWithID [simp]:
  "nextRelID (fst (addRelationshipWithID pkg a b c d)) = nextRelID pkg"
  by (simp add: addRelationshipWithID_def Let_def)

lemma nextRelID_loadRelationship [simp]:
  "nextRelID (loadRelationship src pkg rel) = nextRelID pkg"
  by (simp add: loadRelationship_def Let_def)

lemma nextRelID_foldl_loadRelationship [simp]:
  "nextRelID (foldl (loadRelationship src) pkg rels) = nextRelID pkg"
  by (induction rels arbitrary: pkg) simp_all

lemma nextRelID_loadRelationships:
  "loadRelationships P entries pkg = Inr pkg' \<Longrightarrow> nextRelID pkg' = nextRelID pkg"
  by (induction P entries pkg rule: loadRelationships.induct)
     (auto split: if_splits sum.splits)

lemma nextRelID_loadPart [simp]: "nextRelID (loadPart P dt cm pkg e) = nextRelID pkg"
  by (simp add: loadPart_def Let_def)

lemma nextRelID_foldl_loadPart [simp]:
  "nextRelID (foldl (loadPart P dt cm) pkg es) = nextRelID pkg"
  by (induction es arbitrary: pkg) simp_all

lemma nextRelID_openFromBytes:
  "openFromBytes P bytes pth rw snk = Inr pkg \<Longrightarrow> nextRelID pkg = 1"
  by (auto simp: openFromBytes_def openBody_def newPackageBase_def
           split: sum.splits if_splits dest!: nextRelID_loadRelationships)

lemma addRelationship_eq:
  "addRelationship pkg src tgt rt =
     (pkg\<lparr>nextRelID := nextRelID pkg + 1,
          relationships :=
            AList.update (normalizePathForMap src)
              (bucket pkg (normalizePathForMap src)
               @ [\<lparr>relId = ''R'' @ padStart (toString16 (nextRelID pkg)) 8 (CHR ''0''),
                   relType = rt, target = tgt, targetMode = ''Internal''\<rparr>])
              (relationships pkg)\<rparr>,
      ''R'' @ padStart (toString16 (nextRelID pkg)) 8 (CHR ''0''))"
  by (simp add: addRelationship_def addRelationshipWithID_def Let_def bucket_def)

lemma bucket_update [simp]:
  "bucket (pkg\<lparr>relationships := AList.update k v (relationships pkg)\<rparr>) k' =
     (if k' = k then v else bucket pkg k')"
  by (simp add: bucket_def update_conv')

text \<open>
  Claim C9. A call of \<open>addRelationship\<close> gives the identifier \<open>R\<close> followed by the counter
  in hexadecimal, padded with zeros to eight digits, and adds one to the counter; the
  identifier reads back as the counter, so the next call gives the next number and a
  different identifier. A new \<open>PackageBase\<close> starts its counter at 1, an opened archive has
  the counter 1 whatever identifiers it holds, and \<open>addRelationshipWithID\<close> stores the
  identifier it is given and leaves the counter alone.
\<close>
theorem addRelationship_allocates_id:
  assumes "addRelationship (pkg :: 'b PackageBase) src tgt rt = (pkg1, r1)"
    and "addRelationship pkg1 src' tgt' rt' = (pkg2, r2)"
  shows "r1 = ''R'' @ padStart (toString16 (nextRelID pkg)) 8 (CHR ''0'')
    \<and> nextRelID pkg1 = nextRelID pkg + 1
    \<and> bucket pkg1 (normalizePathForMap src) =
        bucket pkg (normalizePathForMap src)
        @ [\<lparr>relId = r1, relType = rt, target = tgt, targetMode = ''Internal''\<rparr>]
    \<and> idNumber r1 = nextRelID pkg
    \<and> idNumber r2 = idNumber r1 + 1
    \<and> r1 \<noteq> r2
    \<and> (nextRelID pkg < 16 ^ 8 \<longrightarrow> length r1 = 9)
    \<and> nextRelID (newPackageBase pth rw snk :: 'b PackageBase) = 1
    \<and> (\<forall>P bytes opened. openFromBytes P bytes pth rw snk = Inr (opened :: 'b PackageBase)
          \<longrightarrow> nextRelID opened = 1)
    \<and> snd (addRelationshipWithID pkg src tgt rt rid) = rid
    \<and> nextRelID (fst (addRelationshipWithID pkg src tgt rt rid)) = nextRelID pkg
    \<and> bucket (fst (addRelationshipWithID pkg src tgt rt rid)) (normalizePathForMap src) =
        bucket pkg (normalizePathForMap src)
        @ [\<lparr>relId = rid, relType = rt, target = tgt, targetMode = ''Internal''\<rparr>]"
proof -
  from assms(1) have p1: "pkg1 = fst (addRelationship pkg src tgt rt)"
    and r1': "r1 = snd (addRelationship pkg src tgt rt)"
    by simp_all
  from r1' have r1: "r1 = ''R'' @ padStart (toString16 (nextRelID pkg)) 8 (CHR ''0'')"
    by (simp add: addRelationship_eq)
  from p1 have n1: "nextRelID pkg1 = nextRelID pkg + 1"
    by (simp add: addRelationship_eq)
  from assms(2) have "r2 = snd (addRelationship pkg1 src' tgt' rt')" by simp
  then have r2: "r2 = ''R'' @ padStart (toString16 (nextRelID pkg1)) 8 (CHR ''0'')"
    by (simp add: addRelationship_eq)
  have i1: "idNumber r1 = nextRelID pkg"
    by (simp add: r1 idNumber_def hexValue_padStart)
  have i2: "idNumber r2 = nextRelID pkg + 1"
    by (simp add: r2 n1 idNumber_def hexValue_padStart)
  have ne: "r1 \<noteq> r2" using i1 i2 by auto
  have b1: "bucket pkg1 (normalizePathForMap src) =
        bucket pkg (normalizePathForMap src)
        @ [\<lparr>relId = r1, relType = rt, target = tgt, targetMode = ''Internal''\<rparr>]"
    by (simp add: p1 r1 addRelationship_eq bucket_def update_conv')
  have len: "nextRelID pkg < 16 ^ 8 \<longrightarrow> length r1 = 9"
    by (simp add: r1 length_padStart8)
  have wid: "snd (addRelationshipWithID pkg src tgt rt rid) = rid
    \<and> nextRelID (fst (addRelationshipWithID pkg src tgt rt rid)) = nextRelID pkg
    \<and> bucket (fst (addRelationshipWithID pkg src tgt rt rid)) (normalizePathForMap src) =
        bucket pkg (normalizePathForMap src)
        @ [\<lparr>relId = rid, relType = rt, target = tgt, targetMode = ''Internal''\<rparr>]"
    by (simp add: addRelationshipWithID_def Let_def bucket_def update_conv')
  have new: "nextRelID (newPackageBase pth rw snk :: 'b PackageBase) = 1"
    by (simp add: newPackageBase_def)
  have opened: "\<forall>P bytes opened. openFromBytes P bytes pth rw snk = Inr (opened :: 'b PackageBase)
          \<longrightarrow> nextRelID opened = 1"
    by (blast intro: nextRelID_openFromBytes)
  show ?thesis using r1 n1 b1 i1 i2 ne len new opened wid by simp
qed

text \<open>
  On the example package the next two identifiers are \<open>R00000005\<close> and \<open>R00000006\<close>, and
  the package written and opened again has the counter 1.
\<close>
theorem addRelationship_allocates_id_witness:
  "addRelationship examplePackage [] ''/aasx/thumb.png'' RelationTypeThumbnail
     = (fst (addRelationship examplePackage [] ''/aasx/thumb.png'' RelationTypeThumbnail),
        ''R00000005'')
   \<and> snd (addRelationship
            (fst (addRelationship examplePackage [] ''/aasx/thumb.png'' RelationTypeThumbnail))
            [] ''/aasx/doc.pdf'' RelationTypeThumbnail) = ''R00000006''
   \<and> idNumber ''R00000005'' = 5 \<and> idNumber ''R00000006'' = 6
   \<and> nextRelID examplePackage < 16 ^ 8 \<and> length ''R00000005'' = 9
   \<and> (\<exists>opened. openFromBytes refPlatform (writeToBytes refPlatform examplePackage)
                    [] False None = Inr opened
         \<and> nextRelID opened = 1)"
proof -
  define a1 where "a1 = addRelationship examplePackage [] ''/aasx/thumb.png'' RelationTypeThumbnail"
  define a2 where "a2 = addRelationship (fst a1) [] ''/aasx/doc.pdf'' RelationTypeThumbnail"
  have h1: "addRelationship examplePackage [] ''/aasx/thumb.png'' RelationTypeThumbnail
              = (fst a1, snd a1)"
    by (simp add: a1_def)
  have h2: "addRelationship (fst a1) [] ''/aasx/doc.pdf'' RelationTypeThumbnail
              = (fst a2, snd a2)"
    by (simp add: a2_def)
  have n: "nextRelID examplePackage = 5" by code_simp
  have o: "case openFromBytes refPlatform (writeToBytes refPlatform examplePackage)
                  [] False None of Inl _ \<Rightarrow> False | Inr _ \<Rightarrow> True"
    by code_simp
  then obtain opened where op:
    "openFromBytes refPlatform (writeToBytes refPlatform examplePackage) [] False None
       = Inr opened"
    by (auto split: sum.splits)
  note t = addRelationship_allocates_id [OF h1 h2, where pth = "[]" and rw = False and snk = None
      and rid = "[]"]
  have p5: "padStart (toString16 5) 8 (CHR ''0'') = ''00000005''" by code_simp
  have p6: "padStart (toString16 6) 8 (CHR ''0'') = ''00000006''" by code_simp
  from t have "snd a1 = ''R'' @ padStart (toString16 (nextRelID examplePackage)) 8 (CHR ''0'')"
    by (rule conjunct1)
  then have r1: "snd a1 = ''R00000005''"
    by (simp only: n p5) simp
  from t have "nextRelID (fst a1) = nextRelID examplePackage + 1" by blast
  then have n1: "nextRelID (fst a1) = 6" by (simp add: n)
  from addRelationship_allocates_id [OF h2 prod.collapse [symmetric], where pth = "[]"
      and rw = False and snk = None and rid = "[]" and src' = "[]" and tgt' = "[]"
      and rt' = "[]"]
  have "snd a2 = ''R'' @ padStart (toString16 (nextRelID (fst a1))) 8 (CHR ''0'')"
    by (rule conjunct1)
  then have r2: "snd a2 = ''R00000006''"
    by (simp only: n1 p6) simp
  from t have "idNumber (snd a1) = nextRelID examplePackage
      \<and> idNumber (snd a2) = idNumber (snd a1) + 1" by blast
  then have i: "idNumber ''R00000005'' = 5 \<and> idNumber ''R00000006'' = 6"
    by (simp add: r1 r2 n)
  have l: "length ''R00000005'' = 9" by simp
  from t have "\<forall>P bytes opened. openFromBytes P bytes [] False None
      = Inr (opened :: blob PackageBase) \<longrightarrow> nextRelID opened = 1" by blast
  with op have "nextRelID opened = 1" by blast
  with op h1 r1 r2 i l n show ?thesis
    unfolding a1_def a2_def by auto
qed

subsection \<open>Removing and adding relationships\<close>

lemma normalizePathForMap_Nil [simp]: "normalizePathForMap [] = []"
  by (simp add: normalizePathForMap_def)

lemma bucket_removeRelationship:
  "bucket (removeRelationship pkg src tgt rt) k =
     (if k = normalizePathForMap src
      then filter (\<lambda>rel. \<not> (normalizePathForMap (target rel) = normalizePathForMap tgt
                             \<and> relType rel = rt)) (bucket pkg k)
      else bucket pkg k)"
  by (simp add: removeRelationship_def Let_def bucket_def update_conv')

lemma fields_removeRelationship [simp]:
  "parts (removeRelationship pkg src tgt rt) = parts pkg"
  "originURI (removeRelationship pkg src tgt rt) = originURI pkg"
  "nextRelID (removeRelationship pkg src tgt rt) = nextRelID pkg"
  by (simp_all add: removeRelationship_def Let_def)

lemma foldl_removeRelationship_fields [simp]:
  "parts (foldl (\<lambda>q rel. removeRelationship q src (target rel) rt) pkg rels) = parts pkg"
  "originURI (foldl (\<lambda>q rel. removeRelationship q src (target rel) rt) pkg rels) = originURI pkg"
  "nextRelID (foldl (\<lambda>q rel. removeRelationship q src (target rel) rt) pkg rels) = nextRelID pkg"
  by (induction rels arbitrary: pkg) simp_all

lemma foldl_removeRelationship_bucket:
  "bucket (foldl (\<lambda>q rel. removeRelationship q src (target rel) rt) pkg rels) k =
     (if k = normalizePathForMap src
      then filter (\<lambda>r. \<not> (relType r = rt
                           \<and> normalizePathForMap (target r)
                               \<in> (\<lambda>x. normalizePathForMap (target x)) ` set rels))
             (bucket pkg k)
      else bucket pkg k)"
proof (induction rels arbitrary: pkg)
  case Nil
  then show ?case by simp
next
  case (Cons a rels)
  show ?case
    by (simp add: Cons.IH bucket_removeRelationship) (auto intro!: filter_cong)
qed

lemma removeThumbnails_fields [simp]:
  "parts (removeThumbnails pkg) = parts pkg"
  "originURI (removeThumbnails pkg) = originURI pkg"
  "nextRelID (removeThumbnails pkg) = nextRelID pkg"
  by (simp_all add: removeThumbnails_def)

lemma removeThumbnails_none:
  "getRelationshipsByType (removeThumbnails pkg) [] RelationTypeThumbnail = []"
  by (auto simp: removeThumbnails_def getRelationshipsByType_def foldl_removeRelationship_bucket
      filter_empty_conv)

lemma removeThumbnails_other:
  "k \<noteq> [] \<Longrightarrow> bucket (removeThumbnails pkg) k = bucket pkg k"
  by (simp add: removeThumbnails_def foldl_removeRelationship_bucket)

lemma removeThumbnails_keeps:
  "rt \<noteq> RelationTypeThumbnail \<Longrightarrow>
   getRelationshipsByType (removeThumbnails pkg) src rt = getRelationshipsByType pkg src rt"
  by (auto simp: removeThumbnails_def getRelationshipsByType_def foldl_removeRelationship_bucket
      intro: filter_cong)

lemma fields_addRelationship [simp]:
  "parts (fst (addRelationship pkg src tgt rt)) = parts pkg"
  "originURI (fst (addRelationship pkg src tgt rt)) = originURI pkg"
  "nextRelID (fst (addRelationship pkg src tgt rt)) = nextRelID pkg + 1"
  by (simp_all add: addRelationship_eq)

lemma bucket_addRelationship:
  "bucket (fst (addRelationship pkg src tgt rt)) k =
     (if k = normalizePathForMap src
      then bucket pkg k @ [\<lparr>relId = ''R'' @ padStart (toString16 (nextRelID pkg)) 8 (CHR ''0''),
                            relType = rt, target = tgt, targetMode = ''Internal''\<rparr>]
      else bucket pkg k)"
  by (simp add: addRelationship_eq bucket_def update_conv')

lemma SetThumbnail_single:
  "SetThumbnail pkg p = Inr (fst (addRelationship (removeThumbnails pkg) [] (pathFromUri (URI p))
                                    RelationTypeThumbnail))
   \<and> getRelationshipsByType
        (fst (addRelationship (removeThumbnails pkg) [] (pathFromUri (URI p))
                RelationTypeThumbnail)) [] RelationTypeThumbnail =
      [\<lparr>relId = ''R'' @ padStart (toString16 (nextRelID pkg)) 8 (CHR ''0''),
        relType = RelationTypeThumbnail, target = pathFromUri (URI p),
        targetMode = ''Internal''\<rparr>]"
  using removeThumbnails_none [of pkg]
  by (simp add: SetThumbnail_def getRelationshipsByType_def bucket_addRelationship)

subsection \<open>The thumbnail\<close>

lemma applyAll_append:
  "applyAll f s (xs @ ys) = (case applyAll f s xs of Inl e \<Rightarrow> Inl e | Inr s' \<Rightarrow> applyAll f s' ys)"
  by (induction xs arbitrary: s) (auto split: sum.splits)

lemma applyAll_SetThumbnail:
  "\<exists>pkg'. applyAll SetThumbnail pkg ps = Inr pkg' \<and> parts pkg' = parts pkg"
proof (induction ps arbitrary: pkg)
  case Nil
  then show ?case by simp
next
  case (Cons a ps)
  obtain q where q: "SetThumbnail pkg a = Inr q" "parts q = parts pkg"
    by (simp add: SetThumbnail_def)
  from Cons [of q] q show ?case by auto
qed

text \<open>
  Claim C5. After one or more calls of \<open>SetThumbnail\<close>, the last one with the part \<open>p\<close>,
  the root has exactly one thumbnail relationship and its target is the path of \<open>p\<close>;
  \<open>Thumbnail\<close> gives the part registered under that path. \<open>SetThumbnail\<close> adds its
  relationship to the package from which all root thumbnail relationships are removed.
\<close>
theorem SetThumbnail_exactly_one:
  "\<exists>pkg' rid.
      applyAll SetThumbnail pkg (ps @ [p]) = Inr pkg'
    \<and> getRelationshipsByType pkg' [] RelationTypeThumbnail =
        [\<lparr>relId = rid, relType = RelationTypeThumbnail, target = pathFromUri (URI p),
          targetMode = ''Internal''\<rparr>]
    \<and> Thumbnail pkg' =
        (case map_of (parts pkg) (normalizePathForMap (pathFromUri (URI p))) of
           None \<Rightarrow> Inl (''thumbnail relationship exists but part not found: ''
                        @ pathFromUri (URI p))
         | Some q \<Rightarrow> Inr (Some q))
    \<and> SetThumbnail pkg p =
        Inr (fst (addRelationship (removeThumbnails pkg) [] (pathFromUri (URI p))
                    RelationTypeThumbnail))
    \<and> getRelationshipsByType (removeThumbnails pkg) [] RelationTypeThumbnail = []"
proof -
  obtain q where q: "applyAll SetThumbnail pkg ps = Inr q" "parts q = parts pkg"
    using applyAll_SetThumbnail by blast
  define pkg' where
    "pkg' = fst (addRelationship (removeThumbnails q) [] (pathFromUri (URI p))
                   RelationTypeThumbnail)"
  define rid where "rid = ''R'' @ padStart (toString16 (nextRelID q)) 8 (CHR ''0'')"
  have a: "applyAll SetThumbnail pkg (ps @ [p]) = Inr pkg'"
    using q SetThumbnail_single [of q p] by (simp add: applyAll_append pkg'_def)
  have g: "getRelationshipsByType pkg' [] RelationTypeThumbnail =
        [\<lparr>relId = rid, relType = RelationTypeThumbnail, target = pathFromUri (URI p),
          targetMode = ''Internal''\<rparr>]"
    using SetThumbnail_single [of q p] by (simp add: pkg'_def rid_def)
  have ps: "parts pkg' = parts pkg"
    using q by (simp add: pkg'_def)
  have t: "Thumbnail pkg' =
        (case map_of (parts pkg) (normalizePathForMap (pathFromUri (URI p))) of
           None \<Rightarrow> Inl (''thumbnail relationship exists but part not found: ''
                        @ pathFromUri (URI p))
         | Some q \<Rightarrow> Inr (Some q))"
    by (simp add: Thumbnail_def g ps split: option.splits)
  show ?thesis
    using a g t SetThumbnail_single [of pkg p] removeThumbnails_none [of pkg] by blast
qed

text \<open>Three calls on the example package leave the thumbnail of the last one.\<close>
theorem SetThumbnail_exactly_one_witness:
  "\<exists>pkg'. applyAll SetThumbnail examplePackage [exampleDoc, exampleThumb, exampleSpec] = Inr pkg'
     \<and> map target (getRelationshipsByType pkg' [] RelationTypeThumbnail) = [''/aasx/Spec.aas.xml'']
     \<and> Thumbnail pkg' = Inr (Some exampleSpec)"
proof -
  have m: "map_of (parts examplePackage) (normalizePathForMap (pathFromUri (URI exampleSpec)))
             = Some exampleSpec"
    by code_simp
  have p: "pathFromUri (URI exampleSpec) = ''/aasx/Spec.aas.xml''"
    by code_simp
  from SetThumbnail_exactly_one [of examplePackage "[exampleDoc, exampleThumb]" exampleSpec]
  obtain pkg' rid where
    a: "applyAll SetThumbnail examplePackage ([exampleDoc, exampleThumb] @ [exampleSpec]) = Inr pkg'"
    and g: "getRelationshipsByType pkg' [] RelationTypeThumbnail =
        [\<lparr>relId = rid, relType = RelationTypeThumbnail, target = pathFromUri (URI exampleSpec),
          targetMode = ''Internal''\<rparr>]"
    and t: "Thumbnail pkg' =
        (case map_of (parts examplePackage) (normalizePathForMap (pathFromUri (URI exampleSpec))) of
           None \<Rightarrow> Inl (''thumbnail relationship exists but part not found: ''
                        @ pathFromUri (URI exampleSpec))
         | Some q \<Rightarrow> Inr (Some q))"
    by (elim exE conjE)
  from a have a': "applyAll SetThumbnail examplePackage [exampleDoc, exampleThumb, exampleSpec]
      = Inr pkg'" by simp
  from g have g': "map target (getRelationshipsByType pkg' [] RelationTypeThumbnail)
      = [''/aasx/Spec.aas.xml'']" by (simp add: p)
  from t have t': "Thumbnail pkg' = Inr (Some exampleSpec)" by (simp only: m option.case)
  from a' g' t' show ?thesis by (intro exI [of _ pkg'] conjI)
qed

subsection \<open>Idempotence\<close>

lemma hasRelationship_addRelationship_same:
  "hasRelationship (fst (addRelationship pkg src tgt rt)) src tgt rt"
  by (simp add: hasRelationship_def Let_def bucket_addRelationship)

lemma hasRelationship_addRelationship_mono:
  "hasRelationship pkg a b c \<Longrightarrow> hasRelationship (fst (addRelationship pkg src tgt rt)) a b c"
  by (auto simp: hasRelationship_def Let_def bucket_addRelationship)

text \<open>
  Claim C6. \<open>MakeSpec\<close> on a part that is a spec returns the package as it is, and so does
  a second \<open>MakeSpec\<close> after a first. \<open>RelateSupplementaryToSpec\<close> on a pair that is related
  returns the package as it is (or fails its precondition, when the contracts are checked
  and the second part is not a spec), and a second call after a successful first changes
  nothing.
\<close>
theorem MakeSpec_Relate_idempotent:
  "(IsSpec pkg p \<longrightarrow> MakeSpec pkg p = Inr pkg)
   \<and> (\<exists>pkg1. MakeSpec pkg p = Inr pkg1 \<and> IsSpec pkg1 p \<and> MakeSpec pkg1 p = Inr pkg1)
   \<and> (hasRelationship pkg (pathFromUri (URI spec)) (pathFromUri (URI su))
         RelationTypeAasxSupplementary \<longrightarrow>
       RelateSupplementaryToSpec dbg pkg su spec =
         (if dbg \<and> \<not> IsSpec pkg spec
          then Inl ''precondition violation: The part fulfills the spec property.''
          else Inr pkg))
   \<and> (\<forall>pkg1. RelateSupplementaryToSpec dbg pkg su spec = Inr pkg1 \<longrightarrow>
         hasRelationship pkg1 (pathFromUri (URI spec)) (pathFromUri (URI su))
           RelationTypeAasxSupplementary
       \<and> RelateSupplementaryToSpec dbg pkg1 su spec = Inr pkg1)"
proof -
  have m1: "IsSpec pkg p \<longrightarrow> MakeSpec pkg p = Inr pkg"
    by (simp add: IsSpec_def MakeSpec_def)
  have m2: "\<exists>pkg1. MakeSpec pkg p = Inr pkg1 \<and> IsSpec pkg1 p \<and> MakeSpec pkg1 p = Inr pkg1"
  proof (cases "IsSpec pkg p")
    case True
    then show ?thesis by (simp add: IsSpec_def MakeSpec_def)
  next
    case False
    define pkg1 where "pkg1 = fst (addRelationship pkg (originURI pkg) (pathFromUri (URI p))
                       RelationTypeAasxSpec)"
    have "MakeSpec pkg p = Inr pkg1" using False by (simp add: IsSpec_def MakeSpec_def pkg1_def)
    moreover have "IsSpec pkg1 p"
      using hasRelationship_addRelationship_same [of pkg "originURI pkg"]
      by (simp add: IsSpec_def pkg1_def)
    ultimately show ?thesis by (auto simp: IsSpec_def MakeSpec_def)
  qed
  have r1: "hasRelationship pkg (pathFromUri (URI spec)) (pathFromUri (URI su))
         RelationTypeAasxSupplementary \<longrightarrow>
       RelateSupplementaryToSpec dbg pkg su spec =
         (if dbg \<and> \<not> IsSpec pkg spec
          then Inl ''precondition violation: The part fulfills the spec property.''
          else Inr pkg)"
    by (simp add: RelateSupplementaryToSpec_def Require_def IsSpec_def)
  have r2: "hasRelationship pkg1 (pathFromUri (URI spec)) (pathFromUri (URI su))
           RelationTypeAasxSupplementary
       \<and> RelateSupplementaryToSpec dbg pkg1 su spec = Inr pkg1"
    if h: "RelateSupplementaryToSpec dbg pkg su spec = Inr pkg1" for pkg1
  proof -
    from h have ok: "\<not> dbg \<or> IsSpec pkg spec"
      by (auto simp: RelateSupplementaryToSpec_def Require_def IsSpec_def split: if_splits)
    show ?thesis
    proof (cases "hasRelationship pkg (pathFromUri (URI spec)) (pathFromUri (URI su))
           RelationTypeAasxSupplementary")
      case True
      with h ok have "pkg1 = pkg"
        by (auto simp: RelateSupplementaryToSpec_def Require_def IsSpec_def split: if_splits)
      with True h show ?thesis by simp
    next
      case False
      with h ok have p1: "pkg1 = fst (addRelationship pkg (pathFromUri (URI spec))
                              (pathFromUri (URI su)) RelationTypeAasxSupplementary)"
        by (auto simp: RelateSupplementaryToSpec_def Require_def IsSpec_def split: if_splits)
      have has: "hasRelationship pkg1 (pathFromUri (URI spec)) (pathFromUri (URI su))
           RelationTypeAasxSupplementary"
        unfolding p1 by (rule hasRelationship_addRelationship_same)
      have "\<not> dbg \<or> IsSpec pkg1 spec"
        using ok hasRelationship_addRelationship_mono
        by (auto simp: IsSpec_def p1)
      with has show ?thesis
        by (auto simp: RelateSupplementaryToSpec_def Require_def IsSpec_def)
    qed
  qed
  show ?thesis using m1 m2 r1 r2 by blast
qed

text \<open>On the example package, for the related pair and for a pair related by the first call.\<close>
theorem MakeSpec_Relate_idempotent_witness:
  "IsSpec examplePackage exampleSpec
   \<and> MakeSpec examplePackage exampleSpec = Inr examplePackage
   \<and> hasRelationship examplePackage (pathFromUri (URI exampleSpec)) (pathFromUri (URI exampleDoc))
        RelationTypeAasxSupplementary
   \<and> RelateSupplementaryToSpec True examplePackage exampleDoc exampleSpec = Inr examplePackage
   \<and> (\<exists>pkg1. RelateSupplementaryToSpec True examplePackage exampleThumb exampleSpec = Inr pkg1
         \<and> RelateSupplementaryToSpec True pkg1 exampleThumb exampleSpec = Inr pkg1)"
proof -
  have s: "IsSpec examplePackage exampleSpec" by code_simp
  have h: "hasRelationship examplePackage (pathFromUri (URI exampleSpec))
             (pathFromUri (URI exampleDoc)) RelationTypeAasxSupplementary"
    by code_simp
  have n: "\<not> hasRelationship examplePackage (pathFromUri (URI exampleSpec))
             (pathFromUri (URI exampleThumb)) RelationTypeAasxSupplementary"
    by code_simp
  obtain pkg1 where r: "RelateSupplementaryToSpec True examplePackage exampleThumb exampleSpec
             = Inr pkg1"
    using s n by (simp add: RelateSupplementaryToSpec_def Require_def IsSpec_def)
  note t1 = MakeSpec_Relate_idempotent [of examplePackage exampleSpec exampleSpec exampleDoc True]
  note t2 = MakeSpec_Relate_idempotent [of examplePackage exampleSpec exampleSpec exampleThumb True]
  from t1 have "IsSpec examplePackage exampleSpec \<longrightarrow>
      MakeSpec examplePackage exampleSpec = Inr examplePackage"
    by (elim conjE)
  with s have a: "MakeSpec examplePackage exampleSpec = Inr examplePackage" by simp
  from t1 have "hasRelationship examplePackage (pathFromUri (URI exampleSpec))
        (pathFromUri (URI exampleDoc)) RelationTypeAasxSupplementary \<longrightarrow>
       RelateSupplementaryToSpec True examplePackage exampleDoc exampleSpec =
         (if True \<and> \<not> IsSpec examplePackage exampleSpec
          then Inl ''precondition violation: The part fulfills the spec property.''
          else Inr examplePackage)"
    by (elim conjE)
  with s h have b: "RelateSupplementaryToSpec True examplePackage exampleDoc exampleSpec
      = Inr examplePackage" by simp
  from t2 have "\<forall>pkg1. RelateSupplementaryToSpec True examplePackage exampleThumb exampleSpec
         = Inr pkg1 \<longrightarrow>
         hasRelationship pkg1 (pathFromUri (URI exampleSpec)) (pathFromUri (URI exampleThumb))
           RelationTypeAasxSupplementary
       \<and> RelateSupplementaryToSpec True pkg1 exampleThumb exampleSpec = Inr pkg1"
    by (elim conjE)
  with r have c: "RelateSupplementaryToSpec True pkg1 exampleThumb exampleSpec = Inr pkg1"
    by simp
  from r c have c': "\<exists>pkg1. RelateSupplementaryToSpec True examplePackage exampleThumb exampleSpec
         = Inr pkg1
         \<and> RelateSupplementaryToSpec True pkg1 exampleThumb exampleSpec = Inr pkg1"
    by (intro exI [of _ pkg1] conjI)
  from s a h b c' show ?thesis by (intro conjI)
qed

subsection \<open>Deleting a part\<close>

lemma removeAll_fields [simp]:
  "parts (removeAllRelationshipsWithSourceOrTarget pkg u) = parts pkg"
  "originURI (removeAllRelationshipsWithSourceOrTarget pkg u) = originURI pkg"
  "nextRelID (removeAllRelationshipsWithSourceOrTarget pkg u) = nextRelID pkg"
  by (simp_all add: removeAllRelationshipsWithSourceOrTarget_def Let_def)

lemma removeAll_no_mention:
  assumes "(src, rels) \<in> set (relationships (removeAllRelationshipsWithSourceOrTarget pkg u))"
  shows "src \<noteq> normalizePathForMap u"
    and "rels \<noteq> []"
    and "\<forall>r \<in> set rels. normalizePathForMap (target r) \<noteq> normalizePathForMap u"
  using assms
  by (auto simp: removeAllRelationshipsWithSourceOrTarget_def Let_def AList.delete_eq)

lemma bucket_mem:
  "r \<in> set (bucket pkg k) \<Longrightarrow> \<exists>rels. (k, rels) \<in> set (relationships pkg) \<and> r \<in> set rels"
  by (cases "map_of (relationships pkg) k") (auto simp: bucket_def dest: map_of_SomeD)

lemma removeAll_bucket_targets:
  "r \<in> set (bucket (removeAllRelationshipsWithSourceOrTarget pkg u) k) \<Longrightarrow>
     normalizePathForMap (target r) \<noteq> normalizePathForMap u \<and> k \<noteq> normalizePathForMap u"
  using removeAll_no_mention [of k _ pkg u] by (auto dest: bucket_mem)

lemma DeletePart_eq:
  "DeletePart dbg pkg p =
     Inr (removeAllRelationshipsWithSourceOrTarget
            (pkg\<lparr>parts := AList.delete (normalizeURI (Some (URI p))) (parts pkg)\<rparr>)
            (pathFromUri (URI p)))"
  by (simp add: DeletePart_def Let_def Ensure_def delete_conv')

lemma map_filter_mem:
  "y \<in> set (List.map_filter f xs) \<Longrightarrow> \<exists>x \<in> set xs. f x = Some y"
  by (auto simp: List.map_filter_def)

lemma Specs_mem:
  "Specs pkg = Inr specs \<Longrightarrow> q \<in> set specs \<Longrightarrow>
     \<exists>r \<in> set (bucket pkg (normalizePathForMap (originURI pkg))).
        map_of (parts pkg) (normalizePathForMap (target r)) = Some q"
  by (auto simp: Specs_def getRelationshipsByType_def dest!: map_filter_mem)

lemma resolveSupplementaries_mem:
  "resolveSupplementaries ps rels = Inr res \<Longrightarrow> q \<in> set res \<Longrightarrow>
     \<exists>r \<in> set rels. map_of ps (normalizePathForMap (target r)) = Some q"
proof (induction rels arbitrary: res)
  case Nil
  then show ?case by simp
next
  case (Cons rel rels)
  from Cons.prems(1) obtain x tl where x: "map_of ps (normalizePathForMap (target rel)) = Some x"
    and tl: "resolveSupplementaries ps rels = Inr tl" and res: "res = x # tl"
    by (auto split: option.splits sum.splits)
  from Cons.prems(2) res have "q = x \<or> q \<in> set tl" by auto
  then show ?case
  proof
    assume "q = x"
    with x show ?thesis by auto
  next
    assume "q \<in> set tl"
    from Cons.IH [OF tl this] show ?thesis by auto
  qed
qed

lemma SupplementariesFor_mem:
  "SupplementariesFor pkg spec = Inr res \<Longrightarrow> q \<in> set res \<Longrightarrow>
     \<exists>r \<in> set (bucket pkg (normalizePathForMap (pathFromUri (URI spec)))).
        map_of (parts pkg) (normalizePathForMap (target r)) = Some q"
  by (auto simp: SupplementariesFor_def getRelationshipsByType_def
      dest!: resolveSupplementaries_mem)

lemma relateAll_mem:
  "relateAll pkg specs = Inr pairs \<Longrightarrow> (sp, su) \<in> set pairs \<Longrightarrow>
     sp \<in> set specs \<and> (\<exists>res. SupplementariesFor pkg sp = Inr res \<and> su \<in> set res)"
proof (induction specs arbitrary: pairs)
  case Nil
  then show ?case by simp
next
  case (Cons spec specs)
  from Cons.prems(1) obtain sups tl where s: "SupplementariesFor pkg spec = Inr sups"
    and tl: "relateAll pkg specs = Inr tl" and res: "pairs = map (\<lambda>su. (spec, su)) sups @ tl"
    by (auto split: sum.splits)
  from Cons.prems(2) res have "(sp = spec \<and> su \<in> set sups) \<or> (sp, su) \<in> set tl" by auto
  then show ?case
  proof
    assume "sp = spec \<and> su \<in> set sups"
    with s show ?thesis by auto
  next
    assume "(sp, su) \<in> set tl"
    from Cons.IH [OF tl this] show ?thesis by auto
  qed
qed

lemma SupplementaryRelationships_mem:
  "SupplementaryRelationships pkg = Inr pairs \<Longrightarrow> (sp, su) \<in> set pairs \<Longrightarrow>
     (\<exists>specs. Specs pkg = Inr specs \<and> sp \<in> set specs)
     \<and> (\<exists>res. SupplementariesFor pkg sp = Inr res \<and> su \<in> set res)"
  by (auto simp: SupplementaryRelationships_def split: sum.splits dest: relateAll_mem)

lemma partsKeyed_lookup:
  "partsKeyed pkg \<Longrightarrow> map_of (parts pkg) k = Some q \<Longrightarrow> k = normalizeURI (Some (URI q))"
  by (auto simp: partsKeyed_def list_all_iff dest!: map_of_SomeD)

lemma partsKeyed_delete:
  "partsKeyed pkg \<Longrightarrow> map_of (AList.delete k0 (parts pkg)) k = Some q \<Longrightarrow>
     normalizeURI (Some (URI q)) \<noteq> k0"
  by (auto simp: partsKeyed_def list_all_iff delete_conv' dest!: map_of_SomeD split: if_splits)

text \<open>
  In a package whose parts are registered under the canonical paths of their own URIs,
  after \<open>DeletePart\<close> of a part \<open>p\<close> (a spec with supplementaries in particular) no
  relationship has the canonical path of \<open>p\<close> as its source or as its target, \<open>p\<close> is not
  found and is not a spec, \<open>Specs\<close> holds no part with the canonical path of \<open>p\<close>, \<open>p\<close>
  has no supplementaries and no pair of \<open>SupplementaryRelationships\<close> mentions a part with
  that path.
\<close>
theorem DeletePart_strict_cleanup:
  assumes "partsKeyed pkg"
  shows "\<exists>pkg'. DeletePart dbg pkg p = Inr pkg'
    \<and> (\<forall>(src, rels) \<in> set (relationships pkg').
          src \<noteq> normalizePathForMap (pathFromUri (URI p))
        \<and> (\<forall>r \<in> set rels. normalizePathForMap (target r)
                              \<noteq> normalizePathForMap (pathFromUri (URI p))))
    \<and> FindPart pkg' (URI p) = None
    \<and> \<not> IsSpec pkg' p
    \<and> (\<exists>specs. Specs pkg' = Inr specs
          \<and> (\<forall>q \<in> set specs. normalizeURI (Some (URI q)) \<noteq> normalizeURI (Some (URI p))))
    \<and> SupplementariesFor pkg' p = Inr []
    \<and> (\<forall>pairs. SupplementaryRelationships pkg' = Inr pairs \<longrightarrow>
          (\<forall>(sp, su) \<in> set pairs.
              normalizeURI (Some (URI sp)) \<noteq> normalizeURI (Some (URI p))
            \<and> normalizeURI (Some (URI su)) \<noteq> normalizeURI (Some (URI p))))"
proof -
  define k0 where "k0 = normalizeURI (Some (URI p))"
  define pkg' where
    "pkg' = removeAllRelationshipsWithSourceOrTarget
              (pkg\<lparr>parts := AList.delete k0 (parts pkg)\<rparr>) (pathFromUri (URI p))"
  have d: "DeletePart dbg pkg p = Inr pkg'"
    by (simp add: DeletePart_eq pkg'_def k0_def)
  have ps: "parts pkg' = AList.delete k0 (parts pkg)"
    by (simp add: pkg'_def)
  have rel: "\<forall>(src, rels) \<in> set (relationships pkg').
          src \<noteq> normalizePathForMap (pathFromUri (URI p))
        \<and> (\<forall>r \<in> set rels. normalizePathForMap (target r)
                              \<noteq> normalizePathForMap (pathFromUri (URI p)))"
    unfolding pkg'_def using removeAll_no_mention by blast
  have f: "FindPart pkg' (URI p) = None"
    by (simp add: FindPart_def ps k0_def delete_conv')
  have stored: "normalizeURI (Some (URI q)) \<noteq> k0" if "map_of (parts pkg') k = Some q" for k q
    using that assms partsKeyed_delete [of pkg k0 k q] by (simp add: ps)
  have nospec: "\<not> IsSpec pkg' p"
    using removeAll_bucket_targets [of _ "pkg\<lparr>parts := AList.delete k0 (parts pkg)\<rparr>"
        "pathFromUri (URI p)"]
    by (auto simp: IsSpec_def hasRelationship_def Let_def list_ex_iff pkg'_def)
  have sp: "\<exists>specs. Specs pkg' = Inr specs
          \<and> (\<forall>q \<in> set specs. normalizeURI (Some (URI q)) \<noteq> k0)"
  proof -
    obtain specs where s: "Specs pkg' = Inr specs" by (simp add: Specs_def)
    have "normalizeURI (Some (URI q)) \<noteq> k0" if "q \<in> set specs" for q
      using Specs_mem [OF s that] stored by blast
    with s show ?thesis by blast
  qed
  have nob: "bucket pkg' (normalizePathForMap (pathFromUri (URI p))) = []"
  proof (rule ccontr)
    assume "bucket pkg' (normalizePathForMap (pathFromUri (URI p))) \<noteq> []"
    then obtain r where "r \<in> set (bucket pkg' (normalizePathForMap (pathFromUri (URI p))))"
      by (cases "bucket pkg' (normalizePathForMap (pathFromUri (URI p)))") auto
    then show False
      unfolding pkg'_def by (auto dest: removeAll_bucket_targets)
  qed
  have sf: "SupplementariesFor pkg' p = Inr []"
    by (simp add: SupplementariesFor_def getRelationshipsByType_def nob)
  have pr: "\<forall>(sp, su) \<in> set pairs.
              normalizeURI (Some (URI sp)) \<noteq> k0 \<and> normalizeURI (Some (URI su)) \<noteq> k0"
    if h: "SupplementaryRelationships pkg' = Inr pairs" for pairs
  proof -
    have "normalizeURI (Some (URI a)) \<noteq> k0 \<and> normalizeURI (Some (URI b)) \<noteq> k0"
      if m: "(a, b) \<in> set pairs" for a b
    proof -
      from SupplementaryRelationships_mem [OF h m]
      obtain specs res where s: "Specs pkg' = Inr specs" "a \<in> set specs"
        and r: "SupplementariesFor pkg' a = Inr res" "b \<in> set res"
        by blast
      from Specs_mem [OF s] stored have "normalizeURI (Some (URI a)) \<noteq> k0" by blast
      moreover from SupplementariesFor_mem [OF r] stored
      have "normalizeURI (Some (URI b)) \<noteq> k0" by blast
      ultimately show ?thesis by simp
    qed
    then show ?thesis by blast
  qed
  show ?thesis
    using d rel f nospec sp sf pr unfolding k0_def by blast
qed

text \<open>
  The spec of the example package has a supplementary; after it is deleted there is no
  spec, no pair, and only the root has relationships.
\<close>
theorem DeletePart_strict_cleanup_witness:
  "partsKeyed examplePackage
   \<and> IsSpec examplePackage exampleSpec
   \<and> SupplementaryRelationships examplePackage = Inr [(exampleSpec, exampleDoc)]
   \<and> (\<exists>pkg'. DeletePart True examplePackage exampleSpec = Inr pkg'
         \<and> \<not> IsSpec pkg' exampleSpec
         \<and> FindPart pkg' (URI exampleSpec) = None
         \<and> Specs pkg' = Inr []
         \<and> SupplementaryRelationships pkg' = Inr []
         \<and> map fst (relationships pkg') = [[]])"
proof -
  have k: "partsKeyed examplePackage" by code_simp
  have s: "IsSpec examplePackage exampleSpec" by code_simp
  have r: "SupplementaryRelationships examplePackage = Inr [(exampleSpec, exampleDoc)]"
    by code_simp
  have e: "case DeletePart True examplePackage exampleSpec of
             Inl _ \<Rightarrow> False
           | Inr q \<Rightarrow> Specs q = Inr [] \<and> SupplementaryRelationships q = Inr []
                      \<and> map fst (relationships q) = [[]]"
    by code_simp
  from DeletePart_strict_cleanup [OF k, of True exampleSpec]
  obtain pkg' where d: "DeletePart True examplePackage exampleSpec = Inr pkg'"
    and f: "FindPart pkg' (URI exampleSpec) = None"
    and n: "\<not> IsSpec pkg' exampleSpec"
    by (elim exE conjE)
  from e d have x: "Specs pkg' = Inr []" "SupplementaryRelationships pkg' = Inr []"
     "map fst (relationships pkg') = [[]]"
    by simp_all
  from d n f x have "\<exists>pkg'. DeletePart True examplePackage exampleSpec = Inr pkg'
         \<and> \<not> IsSpec pkg' exampleSpec
         \<and> FindPart pkg' (URI exampleSpec) = None
         \<and> Specs pkg' = Inr []
         \<and> SupplementaryRelationships pkg' = Inr []
         \<and> map fst (relationships pkg') = [[]]"
    by (intro exI [of _ pkg'] conjI)
  with k s r show ?thesis by (intro conjI)
qed

lemma map_of_filter_nonempty:
  "distinct (map fst xs) \<Longrightarrow>
   map_of (filter (\<lambda>(s, r). r \<noteq> []) (map (\<lambda>(s, r). (s, f r)) xs)) k =
     (case map_of xs k of None \<Rightarrow> None | Some r \<Rightarrow> if f r = [] then None else Some (f r))"
proof (induction xs)
  case Nil
  then show ?case by simp
next
  case (Cons a xs)
  obtain s r where a: "a = (s, r)" by (cases a)
  from Cons.prems a have notin: "s \<notin> fst ` set xs" and d: "distinct (map fst xs)" by auto
  from notin have none: "map_of xs s = None" by (simp add: map_of_eq_None_iff)
  show ?case
    using Cons.IH [OF d] none by (auto simp: a split: option.splits)
qed

lemma removeAll_bucket_other:
  assumes "distinct (map fst (relationships pkg))" and "k \<noteq> normalizePathForMap u"
  shows "bucket (removeAllRelationshipsWithSourceOrTarget pkg u) k =
           filter (\<lambda>r. normalizePathForMap (target r) \<noteq> normalizePathForMap u) (bucket pkg k)"
proof -
  have d: "distinct (map fst (AList.delete (normalizePathForMap u) (relationships pkg)))"
    using assms(1) by (rule distinct_delete)
  show ?thesis
    using assms(2)
    by (simp add: removeAllRelationshipsWithSourceOrTarget_def Let_def bucket_def
        map_of_filter_nonempty [OF d] delete_conv' split: option.splits)
qed


text \<open>
  Claim C2 fails for a package opened from an archive. \<open>openFromBytes\<close> registers a part
  under the canonical path of its entry name and gives it the URI that the URL parser
  makes of that name; the two differ when the name has a space, unlike in \<open>PutPart\<close>,
  which registers under the path of the URI. In the package opened from the archive the
  part of the entry \<open>aasx/my file.xml\<close> is a spec with one supplementary. \<open>DeletePart\<close> of
  that part looks it up under the path of its URI, deletes no part and passes its
  \<open>Ensure\<close>; the spec relationship, which targets the entry name, stays, so \<open>Specs\<close> still
  returns the deleted part and the part is still registered.
\<close>
theorem DeletePart_keeps_opened_spec:
  "OpenReadWriteFromBytes escapingPlatform (Zip spacedEntries) = Inr spacedPackage
   \<and> \<not> partsKeyed spacedPackage
   \<and> Specs spacedPackage = Inr [spacedSpec]
   \<and> SupplementaryRelationships spacedPackage = Inr [(spacedSpec, spacedDoc)]
   \<and> \<not> isl (DeletePart True spacedPackage spacedSpec)
   \<and> Specs (projr (DeletePart True spacedPackage spacedSpec)) = Inr [spacedSpec]
   \<and> map_of (parts (projr (DeletePart True spacedPackage spacedSpec))) ''/aasx/my file.xml''
       = Some spacedSpec
   \<and> bucket (projr (DeletePart True spacedPackage spacedSpec)) ''/aasx/aasx-origin''
       = [\<lparr>relId = ''R2'', relType = RelationTypeAasxSpec, target = ''/aasx/my file.xml'',
           targetMode = ''Internal''\<rparr>]"
proof -
  have o: "\<not> isl (OpenReadWriteFromBytes escapingPlatform (Zip spacedEntries))" by code_simp
  have k: "\<not> partsKeyed spacedPackage" by code_simp
  have s: "Specs spacedPackage = Inr [spacedSpec]" by code_simp
  have r: "SupplementaryRelationships spacedPackage = Inr [(spacedSpec, spacedDoc)]"
    by code_simp
  have d: "\<not> isl (DeletePart True spacedPackage spacedSpec)" by code_simp
  have s': "Specs (projr (DeletePart True spacedPackage spacedSpec)) = Inr [spacedSpec]"
    by code_simp
  have p: "map_of (parts (projr (DeletePart True spacedPackage spacedSpec))) ''/aasx/my file.xml''
             = Some spacedSpec"
    by code_simp
  have b: "bucket (projr (DeletePart True spacedPackage spacedSpec)) ''/aasx/aasx-origin''
             = [\<lparr>relId = ''R2'', relType = RelationTypeAasxSpec, target = ''/aasx/my file.xml'',
                 targetMode = ''Internal''\<rparr>]"
    by code_simp
  from o have "OpenReadWriteFromBytes escapingPlatform (Zip spacedEntries) = Inr spacedPackage"
    unfolding spacedPackage_def by (cases "OpenReadWriteFromBytes escapingPlatform (Zip spacedEntries)") simp_all
  with k s r d s' p b show ?thesis by (intro conjI)
qed

text \<open>
  Claim C10. \<open>DeletePart\<close> always succeeds. It deletes the entry of the canonical path from
  the registry, which leaves the registry as it was when there is no such entry, and the
  relationships are those of the strict cleanup for the path of the part: its bucket is
  gone, no relationship targets it, and every other bucket keeps its other relationships.
\<close>
theorem DeletePart_absent_part:
  "\<exists>pkg'. DeletePart dbg pkg p = Inr pkg'
    \<and> parts pkg' = AList.delete (normalizeURI (Some (URI p))) (parts pkg)
    \<and> (FindPart pkg (URI p) = None \<longrightarrow> parts pkg' = parts pkg)
    \<and> relationships pkg' =
        relationships (removeAllRelationshipsWithSourceOrTarget pkg (pathFromUri (URI p)))
    \<and> bucket pkg' (normalizePathForMap (pathFromUri (URI p))) = []
    \<and> (\<forall>k. \<forall>r \<in> set (bucket pkg' k).
          normalizePathForMap (target r) \<noteq> normalizePathForMap (pathFromUri (URI p)))
    \<and> (distinct (map fst (relationships pkg)) \<longrightarrow>
        (\<forall>k. k \<noteq> normalizePathForMap (pathFromUri (URI p)) \<longrightarrow>
          bucket pkg' k =
            filter (\<lambda>r. normalizePathForMap (target r)
                          \<noteq> normalizePathForMap (pathFromUri (URI p))) (bucket pkg k)))"
proof -
  define k0 where "k0 = normalizeURI (Some (URI p))"
  define pkg1 where "pkg1 = pkg\<lparr>parts := AList.delete k0 (parts pkg)\<rparr>"
  define pkg' where
    "pkg' = removeAllRelationshipsWithSourceOrTarget pkg1 (pathFromUri (URI p))"
  have d: "DeletePart dbg pkg p = Inr pkg'"
    by (simp add: DeletePart_eq pkg'_def pkg1_def k0_def)
  have ps: "parts pkg' = AList.delete k0 (parts pkg)"
    by (simp add: pkg'_def pkg1_def)
  have absent: "FindPart pkg (URI p) = None \<longrightarrow> parts pkg' = parts pkg"
    by (simp add: ps FindPart_def k0_def map_of_eq_None_iff)
  have rl: "relationships pkg' =
        relationships (removeAllRelationshipsWithSourceOrTarget pkg (pathFromUri (URI p)))"
    by (simp add: pkg'_def pkg1_def removeAllRelationshipsWithSourceOrTarget_def Let_def)
  have tg: "\<forall>k. \<forall>r \<in> set (bucket pkg' k).
          normalizePathForMap (target r) \<noteq> normalizePathForMap (pathFromUri (URI p))"
    unfolding pkg'_def by (auto dest: removeAll_bucket_targets)
  have nob: "bucket pkg' (normalizePathForMap (pathFromUri (URI p))) = []"
  proof (rule ccontr)
    assume "bucket pkg' (normalizePathForMap (pathFromUri (URI p))) \<noteq> []"
    then obtain r where "r \<in> set (bucket pkg' (normalizePathForMap (pathFromUri (URI p))))"
      by (cases "bucket pkg' (normalizePathForMap (pathFromUri (URI p)))") auto
    then show False
      unfolding pkg'_def by (auto dest: removeAll_bucket_targets)
  qed
  have oth: "distinct (map fst (relationships pkg)) \<longrightarrow>
        (\<forall>k. k \<noteq> normalizePathForMap (pathFromUri (URI p)) \<longrightarrow>
          bucket pkg' k =
            filter (\<lambda>r. normalizePathForMap (target r)
                          \<noteq> normalizePathForMap (pathFromUri (URI p))) (bucket pkg k))"
  proof (intro impI allI)
    fix k
    assume dist: "distinct (map fst (relationships pkg))"
      and k: "k \<noteq> normalizePathForMap (pathFromUri (URI p))"
    have "distinct (map fst (relationships pkg1))" using dist by (simp add: pkg1_def)
    from removeAll_bucket_other [OF this k]
    show "bucket pkg' k =
            filter (\<lambda>r. normalizePathForMap (target r)
                          \<noteq> normalizePathForMap (pathFromUri (URI p))) (bucket pkg k)"
      by (simp add: pkg'_def pkg1_def bucket_def)
  qed
  note facts = d ps [unfolded k0_def] absent rl nob tg oth
  show ?thesis
    by (rule exI [of _ pkg']) (intro conjI facts)
qed

text \<open>Deleting a part that the example package does not hold changes nothing.\<close>
theorem DeletePart_absent_part_witness:
  "FindPart examplePackage (URI (examplePart ''/aasx/absent.bin'' ''text/plain'')) = None
   \<and> distinct (map fst (relationships examplePackage))
   \<and> (\<exists>pkg'. DeletePart True examplePackage (examplePart ''/aasx/absent.bin'' ''text/plain'')
                = Inr pkg'
         \<and> parts pkg' = parts examplePackage
         \<and> relationships pkg' = relationships examplePackage)"
proof -
  define q where "q = examplePart ''/aasx/absent.bin'' ''text/plain''"
  have f: "FindPart examplePackage (URI q) = None"
    unfolding q_def by code_simp
  have d: "distinct (map fst (relationships examplePackage))" by code_simp
  have r: "relationships (removeAllRelationshipsWithSourceOrTarget examplePackage
             (pathFromUri (URI q)))
           = relationships examplePackage"
    unfolding q_def by code_simp
  from DeletePart_absent_part [of True examplePackage q]
  obtain pkg' where a: "DeletePart True examplePackage q = Inr pkg'"
    and b: "FindPart examplePackage (URI q) = None \<longrightarrow> parts pkg' = parts examplePackage"
    and c: "relationships pkg' =
        relationships (removeAllRelationshipsWithSourceOrTarget examplePackage (pathFromUri (URI q)))"
    by (elim exE conjE)
  from b f have b': "parts pkg' = parts examplePackage" by simp
  from c r have c': "relationships pkg' = relationships examplePackage" by simp
  from a b' c' have "\<exists>pkg'. DeletePart True examplePackage q = Inr pkg'
         \<and> parts pkg' = parts examplePackage
         \<and> relationships pkg' = relationships examplePackage"
    by (intro exI [of _ pkg'] conjI)
  with f d show ?thesis unfolding q_def by (intro conjI)
qed

subsection \<open>Canonical paths and the registry\<close>

lemma lowerChar_eq_iff:
  assumes "of_char c0 < (65::nat) \<or> (90::nat) < of_char c0"
    and "of_char c0 < (97::nat) \<or> (122::nat) < of_char c0"
  shows "lowerChar c = c0 \<longleftrightarrow> c = c0"
proof
  assume "c = c0"
  with assms(1) show "lowerChar c = c0" by (auto simp: lowerChar_def Let_def)
next
  assume h: "lowerChar c = c0"
  show "c = c0"
  proof (cases "65 \<le> (of_char c :: nat) \<and> (of_char c :: nat) \<le> 90")
    case False
    with h show ?thesis by (auto simp: lowerChar_def Let_def)
  next
    case True
    with h have "char_of (of_char c + (32::nat)) = c0" by (simp add: lowerChar_def Let_def)
    then have "(of_char (char_of (of_char c + (32::nat)) :: char) :: nat) = of_char c0" by simp
    then have "(of_char c + 32) mod 256 = (of_char c0 :: nat)" by (simp add: of_char_of)
    with True assms(2) show ?thesis by auto
  qed
qed

lemma lowerChar_slash [simp]: "lowerChar c = CHR ''/'' \<longleftrightarrow> c = CHR ''/''"
  by (rule lowerChar_eq_iff) simp_all

lemma lowerChar_dot [simp]: "lowerChar c = CHR ''.'' \<longleftrightarrow> c = CHR ''.''"
  by (rule lowerChar_eq_iff) simp_all

lemma lowerChar_slash' [simp]: "CHR ''/'' = lowerChar c \<longleftrightarrow> c = CHR ''/''"
  using lowerChar_slash [of c] by (auto simp del: lowerChar_slash)

lemma lowerChar_idem [simp]: "lowerChar (lowerChar c) = lowerChar c"
proof (cases "65 \<le> (of_char c :: nat) \<and> (of_char c :: nat) \<le> 90")
  case False
  then show ?thesis by (auto simp: lowerChar_def Let_def)
next
  case True
  then have "(of_char (char_of (of_char c + (32::nat)) :: char) :: nat) = of_char c + 32"
    by (simp add: of_char_of)
  with True show ?thesis by (simp add: lowerChar_def Let_def)
qed

lemma split_nonempty [simp]: "split s c \<noteq> []"
  by (induction s) (auto split: list.splits)

lemma split_toLowerCase:
  "split (map lowerChar s) (CHR ''/'') = map (map lowerChar) (split s (CHR ''/''))"
  by (induction s) (auto split: list.splits)

lemma lower_segment_iff [simp]:
  "map lowerChar seg = ''.'' \<longleftrightarrow> seg = ''.''"
  "map lowerChar seg = ''..'' \<longleftrightarrow> seg = ''..''"
  by (auto simp: map_eq_Cons_conv)

lemma normalizeStep_toLowerCase:
  "normalizeStep (map (map lowerChar) st) (map lowerChar seg) =
     map (map lowerChar) (normalizeStep st seg)"
  by (simp add: normalizeStep_def map_butlast)

lemma foldl_normalizeStep_toLowerCase:
  "foldl normalizeStep (map (map lowerChar) st) (map (map lowerChar) segs) =
     map (map lowerChar) (foldl normalizeStep st segs)"
  by (induction segs arbitrary: st) (simp_all add: normalizeStep_toLowerCase)

lemma join_toLowerCase:
  "join (map (map lowerChar) xs) ''/'' = map lowerChar (join xs ''/'')"
  by (induction xs "''/''" rule: join.induct) (simp_all add: lowerChar_def)

lemma normalizePath_toLowerCase:
  "normalizePath (toLowerCase w) = toLowerCase (normalizePath w)"
  using foldl_normalizeStep_toLowerCase [of "[]"]
  by (simp add: normalizePath_def toLowerCase_def split_toLowerCase join_toLowerCase
      lowerChar_def)


lemma toLowerCase_idem [simp]: "toLowerCase (toLowerCase w) = toLowerCase w"
  by (simp add: toLowerCase_def)

lemma toLowerCase_Nil_iff [simp]: "toLowerCase p = [] \<longleftrightarrow> p = []"
  by (simp add: toLowerCase_def)

lemma toLowerCase_slash_Cons [simp]: "toLowerCase (CHR ''/'' # p) = CHR ''/'' # toLowerCase p"
  using lowerChar_slash [of "CHR ''/''"] by (simp add: toLowerCase_def del: lowerChar_slash)




lemma PutPart_eq:
  "PutPart dbg pkg uri ct bytes =
     Inr (pkg\<lparr>parts := AList.update (normalizeURI (Some uri))
                         (case map_of (parts pkg) (normalizeURI (Some uri)) of
                            Some old \<Rightarrow> old\<lparr>ContentType := ct, content := bytes\<rparr>
                          | None \<Rightarrow> \<lparr>URI = uri, ContentType = ct, content = bytes\<rparr>)
                         (parts pkg)\<rparr>,
          case map_of (parts pkg) (normalizeURI (Some uri)) of
            Some old \<Rightarrow> old\<lparr>ContentType := ct, content := bytes\<rparr>
          | None \<Rightarrow> \<lparr>URI = uri, ContentType = ct, content = bytes\<rparr>)"
  by (simp add: PutPart_def Let_def Ensure_def update_conv')

lemma update_absent:
  "k \<notin> fst ` set al \<Longrightarrow> AList.update k v al = al @ [(k, v)]"
  by (induction al) auto




subsection \<open>Traversal of relationships\<close>

text \<open>
  Claim C3 does not hold for \<open>Specs\<close>. In the package below the only spec relationship of
  the origin has a target that is not registered, and \<open>Specs\<close> resolves to the empty list.
\<close>
theorem Specs_skips_dangling_edge:
  "map target (getRelationshipsByType danglingPackage (originURI danglingPackage)
                 RelationTypeAasxSpec) = [''/aasx/Spec.aas.xml'']
   \<and> map_of (parts danglingPackage) (normalizePathForMap ''/aasx/Spec.aas.xml'') = None
   \<and> Specs danglingPackage = Inr []"
  by code_simp

lemma resolveSupplementaries_dangling:
  "\<exists>r \<in> set rels. map_of ps (normalizePathForMap (target r)) = None \<Longrightarrow>
   \<exists>r \<in> set rels. map_of ps (normalizePathForMap (target r)) = None
      \<and> resolveSupplementaries ps rels = Inl (''supplementary part '' @ target r @ '' not found'')"
proof (induction rels)
  case Nil
  then show ?case by simp
next
  case (Cons rel rels)
  show ?case
  proof (cases "map_of ps (normalizePathForMap (target rel))")
    case None
    then show ?thesis by auto
  next
    case (Some q)
    with Cons.prems have "\<exists>r \<in> set rels. map_of ps (normalizePathForMap (target r)) = None"
      by auto
    from Cons.IH [OF this] Some show ?thesis by auto
  qed
qed

lemma resolveSupplementaries_total:
  "\<forall>r \<in> set rels. map_of ps (normalizePathForMap (target r)) \<noteq> None \<Longrightarrow>
   resolveSupplementaries ps rels =
     Inr (map (\<lambda>r. the (map_of ps (normalizePathForMap (target r)))) rels)"
  by (induction rels) auto

text \<open>
  Claim C3, amended. When a supplementary relationship of the spec has a target that is
  not registered, \<open>SupplementariesFor\<close> fails with the integrity error of the first such
  relationship. When the first thumbnail relationship of the root has a target that is
  not registered, \<open>Thumbnail\<close> fails with its integrity error. \<open>Specs\<close> never fails: it
  gives the parts of the spec relationships whose targets are registered and skips the
  others.
\<close>
theorem traversal_integrity:
  "(\<forall>rel \<in> set (getRelationshipsByType pkg (pathFromUri (URI spec)) RelationTypeAasxSupplementary).
       map_of (parts pkg) (normalizePathForMap (target rel)) = None \<longrightarrow>
       (\<exists>r \<in> set (getRelationshipsByType pkg (pathFromUri (URI spec))
                      RelationTypeAasxSupplementary).
           map_of (parts pkg) (normalizePathForMap (target r)) = None
         \<and> SupplementariesFor pkg spec = Inl (''supplementary part '' @ target r @ '' not found'')))
   \<and> (\<forall>rel rest. getRelationshipsByType pkg [] RelationTypeThumbnail = rel # rest
         \<and> map_of (parts pkg) (normalizePathForMap (target rel)) = None \<longrightarrow>
       Thumbnail pkg = Inl (''thumbnail relationship exists but part not found: '' @ target rel))
   \<and> Specs pkg =
       Inr (map (\<lambda>rel. the (map_of (parts pkg) (normalizePathForMap (target rel))))
              (filter (\<lambda>rel. map_of (parts pkg) (normalizePathForMap (target rel)) \<noteq> None)
                 (getRelationshipsByType pkg (originURI pkg) RelationTypeAasxSpec)))"
proof -
  have a: "\<forall>rel \<in> set (getRelationshipsByType pkg (pathFromUri (URI spec))
                          RelationTypeAasxSupplementary).
       map_of (parts pkg) (normalizePathForMap (target rel)) = None \<longrightarrow>
       (\<exists>r \<in> set (getRelationshipsByType pkg (pathFromUri (URI spec))
                      RelationTypeAasxSupplementary).
           map_of (parts pkg) (normalizePathForMap (target r)) = None
         \<and> SupplementariesFor pkg spec = Inl (''supplementary part '' @ target r @ '' not found''))"
    unfolding SupplementariesFor_def
    by (intro ballI impI resolveSupplementaries_dangling) blast
  have b: "\<forall>rel rest. getRelationshipsByType pkg [] RelationTypeThumbnail = rel # rest
         \<and> map_of (parts pkg) (normalizePathForMap (target rel)) = None \<longrightarrow>
       Thumbnail pkg = Inl (''thumbnail relationship exists but part not found: '' @ target rel)"
    by (simp add: Thumbnail_def)
  have mf: "List.map_filter f xs = map (\<lambda>x. the (f x)) (filter (\<lambda>x. f x \<noteq> None) xs)"
    for f :: "Relationship \<Rightarrow> 'a part option" and xs
    by (induction xs) (auto simp: List.map_filter_def)
  have c: "Specs pkg =
       Inr (map (\<lambda>rel. the (map_of (parts pkg) (normalizePathForMap (target rel))))
              (filter (\<lambda>rel. map_of (parts pkg) (normalizePathForMap (target rel)) \<noteq> None)
                 (getRelationshipsByType pkg (originURI pkg) RelationTypeAasxSpec)))"
    by (simp add: Specs_def mf)
  from a b c show ?thesis by (intro conjI)
qed

text \<open>
  The package with a supplementary relationship and a thumbnail relationship to a part
  that is not registered.
\<close>
theorem traversal_integrity_witness:
  "map target (getRelationshipsByType brokenPackage (pathFromUri (URI exampleSpec))
                 RelationTypeAasxSupplementary) = [''/aasx/doc.pdf'', ''/aasx/missing.pdf'']
   \<and> map_of (parts brokenPackage) (normalizePathForMap ''/aasx/missing.pdf'') = None
   \<and> SupplementariesFor brokenPackage exampleSpec
        = Inl ''supplementary part /aasx/missing.pdf not found''
   \<and> map target (getRelationshipsByType brokenPackage [] RelationTypeThumbnail)
        = [''/aasx/missing.pdf'']
   \<and> Thumbnail brokenPackage
        = Inl ''thumbnail relationship exists but part not found: /aasx/missing.pdf''
   \<and> Specs brokenPackage = Inr [exampleSpec]"
proof -
  define rels where "rels = getRelationshipsByType brokenPackage (pathFromUri (URI exampleSpec))
                 RelationTypeAasxSupplementary"
  define th where "th = getRelationshipsByType brokenPackage [] RelationTypeThumbnail"
  have r: "map target rels = [''/aasx/doc.pdf'', ''/aasx/missing.pdf'']"
    unfolding rels_def by code_simp
  have m: "map_of (parts brokenPackage) (normalizePathForMap ''/aasx/missing.pdf'') = None"
    by code_simp
  have d: "map_of (parts brokenPackage) (normalizePathForMap ''/aasx/doc.pdf'') \<noteq> None"
    by code_simp
  have t: "map target th = [''/aasx/missing.pdf'']"
    unfolding th_def by code_simp
  have sp: "map (\<lambda>rel. the (map_of (parts brokenPackage) (normalizePathForMap (target rel))))
              (filter (\<lambda>rel. map_of (parts brokenPackage) (normalizePathForMap (target rel)) \<noteq> None)
                 (getRelationshipsByType brokenPackage (originURI brokenPackage)
                    RelationTypeAasxSpec)) = [exampleSpec]"
    by code_simp
  note ti = traversal_integrity [of brokenPackage exampleSpec]
  from r obtain r1 r2 where rr: "rels = [r1, r2]" "target r1 = ''/aasx/doc.pdf''"
    "target r2 = ''/aasx/missing.pdf''"
    by (auto simp: map_eq_Cons_conv)
  from ti have "\<forall>rel \<in> set rels.
       map_of (parts brokenPackage) (normalizePathForMap (target rel)) = None \<longrightarrow>
       (\<exists>r \<in> set rels.
           map_of (parts brokenPackage) (normalizePathForMap (target r)) = None
         \<and> SupplementariesFor brokenPackage exampleSpec
             = Inl (''supplementary part '' @ target r @ '' not found''))"
    unfolding rels_def by (elim conjE)
  with rr m d have s: "SupplementariesFor brokenPackage exampleSpec
        = Inl ''supplementary part /aasx/missing.pdf not found''"
    by auto
  from t obtain t1 where tt: "th = t1 # []" "target t1 = ''/aasx/missing.pdf''"
    by (auto simp: map_eq_Cons_conv)
  from ti have "\<forall>rel rest. th = rel # rest
         \<and> map_of (parts brokenPackage) (normalizePathForMap (target rel)) = None \<longrightarrow>
       Thumbnail brokenPackage
         = Inl (''thumbnail relationship exists but part not found: '' @ target rel)"
    unfolding th_def by (elim conjE)
  with tt m have u: "Thumbnail brokenPackage
        = Inl ''thumbnail relationship exists but part not found: /aasx/missing.pdf''"
    by auto
  from ti sp have v: "Specs brokenPackage = Inr [exampleSpec]" by simp
  from r m s t u v show ?thesis unfolding rels_def th_def by (intro conjI)
qed


subsection \<open>The registry of a built package\<close>

text \<open>
  \<open>PutPart\<close> registers a part under the canonical path of its URI, so in a package built
  from a new one every part is registered under the canonical path of its own URI, and
  \<open>DeletePart\<close> keeps it so.
\<close>

lemma partsKeyed_update:
  assumes "partsKeyed pkg" and "k = normalizeURI (Some (URI v))"
  shows "partsKeyed (pkg\<lparr>parts := AList.update k v (parts pkg)\<rparr>)"
proof -
  have "list_all Q (AList.update k v al)" if "list_all Q al" "Q (k, v)"
    for Q :: "string \<times> 'a part \<Rightarrow> bool" and al
    using that by (induction al) auto
  with assms show ?thesis by (simp add: partsKeyed_def)
qed

lemma partsKeyed_CreateInStream: "partsKeyed (CreateInStream P)"
  by (simp add: CreateInStream_def initializeNewPackage_def Let_def partsKeyed_def
      newPackageBase_def)

lemma partsKeyed_PutPart:
  assumes k: "partsKeyed pkg" and p: "PutPart dbg pkg uri ct bytes = Inr r"
  shows "partsKeyed (fst r)"
proof (cases "map_of (parts pkg) (normalizeURI (Some uri))")
  case None
  with p have "fst r = pkg\<lparr>parts := AList.update (normalizeURI (Some uri))
                               \<lparr>URI = uri, ContentType = ct, content = bytes\<rparr> (parts pkg)\<rparr>"
    by (auto simp: PutPart_eq)
  with partsKeyed_update [OF k, of "normalizeURI (Some uri)"
      "\<lparr>URI = uri, ContentType = ct, content = bytes\<rparr>"]
  show ?thesis by simp
next
  case (Some old)
  from partsKeyed_lookup [OF k Some]
  have kk: "normalizeURI (Some uri) = normalizeURI (Some (URI old))" .
  from Some p have "fst r = pkg\<lparr>parts := AList.update (normalizeURI (Some uri))
                               (old\<lparr>ContentType := ct, content := bytes\<rparr>) (parts pkg)\<rparr>"
    by (auto simp: PutPart_eq)
  with partsKeyed_update [OF k, of "normalizeURI (Some uri)"
      "old\<lparr>ContentType := ct, content := bytes\<rparr>"] kk
  show ?thesis by simp
qed

lemma parts_MakeSpec: "MakeSpec pkg p = Inr pkg' \<Longrightarrow> parts pkg' = parts pkg"
  by (auto simp: MakeSpec_def split: if_splits)

lemma parts_RelateSupplementaryToSpec:
  "RelateSupplementaryToSpec dbg pkg su sp = Inr pkg' \<Longrightarrow> parts pkg' = parts pkg"
  by (auto simp: RelateSupplementaryToSpec_def Let_def split: if_splits sum.splits)

lemma parts_SetThumbnail: "SetThumbnail pkg p = Inr pkg' \<Longrightarrow> parts pkg' = parts pkg"
  by (auto simp: SetThumbnail_def)

lemma partsKeyed_applyCall:
  assumes "partsKeyed pkg" and "applyCall dbg pkg c = Inr pkg'"
  shows "partsKeyed pkg'"
proof (cases c)
  case (CallPutPart uri ct bytes)
  with assms(2) obtain r where "PutPart dbg pkg uri ct bytes = Inr r" and "pkg' = fst r"
    by (auto split: sum.splits)
  with partsKeyed_PutPart [OF assms(1)] show ?thesis by simp
next
  case (CallMakeSpec p)
  with assms(2) have "parts pkg' = parts pkg" by (simp add: parts_MakeSpec)
  with assms(1) show ?thesis by (simp add: partsKeyed_def)
next
  case (CallRelateSupplementaryToSpec su sp)
  with assms(2) have "parts pkg' = parts pkg" by (simp add: parts_RelateSupplementaryToSpec)
  with assms(1) show ?thesis by (simp add: partsKeyed_def)
next
  case (CallSetThumbnail p)
  with assms(2) have "parts pkg' = parts pkg" by (simp add: parts_SetThumbnail)
  with assms(1) show ?thesis by (simp add: partsKeyed_def)
qed

lemma partsKeyed_applyAll:
  "partsKeyed pkg \<Longrightarrow> applyAll (applyCall dbg) pkg calls = Inr pkg' \<Longrightarrow> partsKeyed pkg'"
proof (induction calls arbitrary: pkg)
  case Nil
  then show ?case by simp
next
  case (Cons c calls)
  from Cons.prems(2) obtain mid where m: "applyCall dbg pkg c = Inr mid"
    and r: "applyAll (applyCall dbg) mid calls = Inr pkg'"
    by (auto split: sum.splits)
  from Cons.IH [OF partsKeyed_applyCall [OF Cons.prems(1) m] r] show ?case .
qed

lemma partsKeyed_built:
  "applyAll (applyCall dbg) (CreateInStream P) calls = Inr pkg \<Longrightarrow> partsKeyed pkg"
  by (rule partsKeyed_applyAll [OF partsKeyed_CreateInStream])

lemma partsKeyed_DeletePart:
  assumes "partsKeyed pkg" and "DeletePart dbg pkg p = Inr pkg'"
  shows "partsKeyed pkg'"
proof -
  have "list_all Q (AList.delete k al)" if "list_all Q al"
    for Q :: "string \<times> 'a part \<Rightarrow> bool" and al k
    using that by (induction al) auto
  with assms show ?thesis
    by (auto simp: DeletePart_eq partsKeyed_def removeAllRelationshipsWithSourceOrTarget_def Let_def)
qed

subsection \<open>Failures of opening\<close>

lemma originURI_addRelationshipWithID [simp]:
  "originURI (fst (addRelationshipWithID pkg a b c d)) = originURI pkg"
  by (simp add: addRelationshipWithID_def Let_def)

lemma originURI_loadRelationship:
  "originURI (loadRelationship src pkg rel) =
     (if relType rel = RelationTypeAasxOrigin \<and> src = []
      then normalizePathForMap (resolveRelativeURI src (target rel))
      else originURI pkg)"
  by (simp add: loadRelationship_def Let_def)

lemma originURI_foldl_loadRelationship:
  "\<forall>r \<in> set rels. \<not> (relType r = RelationTypeAasxOrigin \<and> src = []) \<Longrightarrow>
   originURI (foldl (loadRelationship src) pkg rels) = originURI pkg"
proof (induction rels arbitrary: pkg)
  case Nil
  then show ?case by simp
next
  case (Cons a rels)
  from Cons.prems have h: "\<not> (relType a = RelationTypeAasxOrigin \<and> src = [])"
    and t: "\<forall>r \<in> set rels. \<not> (relType r = RelationTypeAasxOrigin \<and> src = [])"
    by simp_all
  from h have "originURI (loadRelationship src pkg a) = originURI pkg"
    by (simp only: originURI_loadRelationship if_False)
  with Cons.IH [OF t, of "loadRelationship src pkg a"] show ?case by simp
qed

lemma parseRelationshipsXml_ok:
  "\<not> isl (parseXmlString P xml) \<Longrightarrow> \<exists>rels. parseRelationshipsXml P xml = Inr rels"
  by (cases "parseXmlString P xml") (simp_all add: parseRelationshipsXml_def)

lemma parseContentTypesXml_ok:
  "\<not> isl (parseXmlString P xml) \<Longrightarrow> \<exists>r. parseContentTypesXml P xml = Inr r"
  by (cases "parseXmlString P xml") (simp_all add: parseContentTypesXml_def)

lemma loadContentTypes_ok:
  "documentsParse P entries \<Longrightarrow> \<exists>tables. loadContentTypes P entries = Inr tables"
proof (cases "map_of entries ''[Content_Types].xml''")
  case None
  then show ?thesis by (simp add: loadContentTypes_def)
next
  case (Some d)
  assume "documentsParse P entries"
  with Some have "\<not> isl (parseXmlString P (decodeUtf8 P d))"
    by (simp add: documentsParse_def)
  from parseContentTypesXml_ok [OF this] Some show ?thesis
    by (auto simp: loadContentTypes_def)
qed

lemma loadRelationships_no_origin:
  assumes "list_all (\<lambda>e. includesStr (fst e) ''_rels/'' \<and> endsWith (fst e) ''.rels''
                       \<longrightarrow> \<not> isl (parseXmlString P (decodeUtf8 P (snd e)))) entries"
    and "rootOriginRelationships P entries = []"
  shows "\<exists>pkg'. loadRelationships P entries pkg = Inr pkg' \<and> originURI pkg' = originURI pkg"
  using assms
proof (induction entries arbitrary: pkg)
  case Nil
  then show ?case by simp
next
  case (Cons e entries)
  obtain nm d where e: "e = (nm, d)" by (cases e)
  from Cons.prems have tl: "list_all (\<lambda>e. includesStr (fst e) ''_rels/'' \<and> endsWith (fst e) ''.rels''
                       \<longrightarrow> \<not> isl (parseXmlString P (decodeUtf8 P (snd e)))) entries"
    and ro: "rootOriginRelationships P entries = []"
    by (simp_all add: rootOriginRelationships_def)
  show ?case
  proof (cases "includesStr nm ''_rels/'' \<and> endsWith nm ''.rels''")
    case False
    with Cons.IH [OF tl ro, of pkg] e show ?thesis by auto
  next
    case True
    with Cons.prems(1) e have "\<not> isl (parseXmlString P (decodeUtf8 P d))" by simp
    from parseRelationshipsXml_ok [OF this]
    obtain rels where rels: "parseRelationshipsXml P (decodeUtf8 P d) = Inr rels" by blast
    have no: "\<forall>r \<in> set rels. \<not> (relType r = RelationTypeAasxOrigin
                \<and> getSourcePathFromRelsPath nm = [])"
      using Cons.prems(2) True e rels
      by (auto simp: rootOriginRelationships_def filter_empty_conv split: if_splits)
    define pkg1 where "pkg1 = foldl (loadRelationship (getSourcePathFromRelsPath nm)) pkg rels"
    have o1: "originURI pkg1 = originURI pkg"
      unfolding pkg1_def by (rule originURI_foldl_loadRelationship [OF no])
    from Cons.IH [OF tl ro, of pkg1] True e rels o1 show ?thesis
      by (auto simp: pkg1_def)
  qed
qed

lemma invalid_format_distinct: "ErrInvalidFormat @ '': '' @ msg \<noteq> ErrNoOriginPart"
  by (simp add: ErrInvalidFormat_def ErrNoOriginPart_def)

text \<open>
  Claim C4. When the bytes are not a zip archive, \<open>openFromBytes\<close> fails with the message
  of an invalid format followed by the message of the zip library (which is not the
  message of a missing origin). When the bytes are a zip archive whose documents parse and
  which holds no origin relationship of the root, an empty archive for one,
  \<open>openFromBytes\<close> fails with the message of a missing origin. The two messages are
  different, and \<open>openFromBytes\<close> fails with no other.
\<close>
theorem openFromBytes_failures:
  "(\<forall>msg. unzipSync P bytes = Inl msg \<and> msg \<noteq> ErrNoOriginPart \<longrightarrow>
       openFromBytes P bytes pth rw snk = Inl (ErrInvalidFormat @ '': '' @ msg))
   \<and> (\<forall>entries. unzipSync P bytes = Inr entries \<and> documentsParse P entries
         \<and> rootOriginRelationships P entries = [] \<longrightarrow>
       openFromBytes P bytes pth rw snk = Inl ErrNoOriginPart)
   \<and> (unzipSync P bytes = Inr [] \<longrightarrow> openFromBytes P bytes pth rw snk = Inl ErrNoOriginPart)
   \<and> (\<forall>msg. ErrInvalidFormat @ '': '' @ msg \<noteq> ErrNoOriginPart)
   \<and> (\<forall>e. openFromBytes P bytes pth rw snk = Inl e \<longrightarrow>
         e = ErrNoOriginPart \<or> (\<exists>msg. e = ErrInvalidFormat @ '': '' @ msg))"
proof -
  have a: "\<forall>msg. unzipSync P bytes = Inl msg \<and> msg \<noteq> ErrNoOriginPart \<longrightarrow>
       openFromBytes P bytes pth rw snk = Inl (ErrInvalidFormat @ '': '' @ msg)"
    by (simp add: openFromBytes_def openBody_def)
  have b: "openFromBytes P bytes pth rw snk = Inl ErrNoOriginPart"
    if u: "unzipSync P bytes = Inr entries" and dp: "documentsParse P entries"
      and ro: "rootOriginRelationships P entries = []" for entries
  proof -
    from loadContentTypes_ok [OF dp] obtain tables where
      t: "loadContentTypes P entries = Inr tables" by blast
    from dp have "list_all (\<lambda>e. includesStr (fst e) ''_rels/'' \<and> endsWith (fst e) ''.rels''
                       \<longrightarrow> \<not> isl (parseXmlString P (decodeUtf8 P (snd e)))) entries"
      by (simp add: documentsParse_def)
    from loadRelationships_no_origin [OF this ro, of "newPackageBase pth rw snk"]
    obtain pkg' where l: "loadRelationships P entries (newPackageBase pth rw snk) = Inr pkg'"
      and o: "originURI pkg' = []"
      by (auto simp: newPackageBase_def)
    from u t l o show ?thesis by (simp add: openFromBytes_def openBody_def)
  qed
  have c: "unzipSync P bytes = Inr [] \<longrightarrow> openFromBytes P bytes pth rw snk = Inl ErrNoOriginPart"
    by (simp add: openFromBytes_def openBody_def loadContentTypes_def newPackageBase_def)
  have d: "\<forall>msg. ErrInvalidFormat @ '': '' @ msg \<noteq> ErrNoOriginPart"
    by (rule allI) (rule invalid_format_distinct)
  have e: "\<forall>e. openFromBytes P bytes pth rw snk = Inl e \<longrightarrow>
         e = ErrNoOriginPart \<or> (\<exists>msg. e = ErrInvalidFormat @ '': '' @ msg)"
    by (auto simp: openFromBytes_def split: sum.splits if_splits)
  from b have b': "\<forall>entries. unzipSync P bytes = Inr entries \<and> documentsParse P entries
         \<and> rootOriginRelationships P entries = [] \<longrightarrow>
       openFromBytes P bytes pth rw snk = Inl ErrNoOriginPart"
    by blast
  from a b' c d e show ?thesis by (intro conjI)
qed

text \<open>Bytes that are no archive, an archive without an origin and the empty archive.\<close>
theorem openFromBytes_failures_witness:
  "unzipSync refPlatform (Raw ''not a zip'') = Inl ''invalid zip data''
   \<and> ''invalid zip data'' \<noteq> ErrNoOriginPart
   \<and> OpenReadFromBytes refPlatform (Raw ''not a zip'')
        = Inl ''invalid package format: invalid zip data''
   \<and> unzipSync refPlatform (Zip entriesWithoutOrigin) = Inr entriesWithoutOrigin
   \<and> documentsParse refPlatform entriesWithoutOrigin
   \<and> rootOriginRelationships refPlatform entriesWithoutOrigin = []
   \<and> OpenReadFromBytes refPlatform (Zip entriesWithoutOrigin) = Inl ''no origin part found''
   \<and> unzipSync refPlatform (Zip []) = Inr []
   \<and> OpenReadFromBytes refPlatform (Zip []) = Inl ''no origin part found''"
proof -
  have u1: "unzipSync refPlatform (Raw ''not a zip'') = Inl ''invalid zip data''"
    by (simp add: refPlatform_def)
  have n1: "''invalid zip data'' \<noteq> ErrNoOriginPart"
    by (simp add: ErrNoOriginPart_def)
  have u2: "unzipSync refPlatform (Zip entriesWithoutOrigin) = Inr entriesWithoutOrigin"
    by (simp add: refPlatform_def)
  have d2: "documentsParse refPlatform entriesWithoutOrigin" by code_simp
  have r2: "rootOriginRelationships refPlatform entriesWithoutOrigin = []" by code_simp
  have u3: "unzipSync refPlatform (Zip []) = Inr []"
    by (simp add: refPlatform_def)
  from openFromBytes_failures [of refPlatform "Raw ''not a zip''" "[]" False None]
  have "\<forall>msg. unzipSync refPlatform (Raw ''not a zip'') = Inl msg \<and> msg \<noteq> ErrNoOriginPart \<longrightarrow>
       openFromBytes refPlatform (Raw ''not a zip'') [] False None
         = Inl (ErrInvalidFormat @ '': '' @ msg)"
    by (elim conjE)
  with u1 n1 have o1: "OpenReadFromBytes refPlatform (Raw ''not a zip'')
        = Inl ''invalid package format: invalid zip data''"
    by (simp add: OpenReadFromBytes_def ErrInvalidFormat_def)
  from openFromBytes_failures [of refPlatform "Zip entriesWithoutOrigin" "[]" False None]
  have "\<forall>entries. unzipSync refPlatform (Zip entriesWithoutOrigin) = Inr entries
         \<and> documentsParse refPlatform entries
         \<and> rootOriginRelationships refPlatform entries = [] \<longrightarrow>
       openFromBytes refPlatform (Zip entriesWithoutOrigin) [] False None = Inl ErrNoOriginPart"
    by (elim conjE)
  with u2 d2 r2 have o2: "OpenReadFromBytes refPlatform (Zip entriesWithoutOrigin)
        = Inl ''no origin part found''"
    by (simp add: OpenReadFromBytes_def ErrNoOriginPart_def)
  from openFromBytes_failures [of refPlatform "Zip []" "[]" False None]
  have "unzipSync refPlatform (Zip []) = Inr [] \<longrightarrow>
      openFromBytes refPlatform (Zip []) [] False None = Inl ErrNoOriginPart"
    by (elim conjE)
  with u3 have o3: "OpenReadFromBytes refPlatform (Zip []) = Inl ''no origin part found''"
    by (simp add: OpenReadFromBytes_def ErrNoOriginPart_def)
  from u1 n1 o1 u2 d2 r2 o2 u3 o3 show ?thesis by (intro conjI)
qed

subsection \<open>Sorting with a comparator\<close>

lemma mset_insertBy: "mset (insertBy cmp x xs) = add_mset x (mset xs)"
  by (induction xs) auto

lemma mset_sortBy: "mset (sortBy cmp xs) = mset xs"
  by (induction xs) (auto simp: sortBy_def mset_insertBy)

lemma set_sortBy: "set (sortBy cmp xs) = set xs"
  using mset_sortBy [of cmp xs] by (metis set_mset_mset)

lemma set_insertBy: "set (insertBy cmp x xs) = insert x (set xs)"
  using mset_insertBy [of cmp x xs] by (metis set_mset_mset set_mset_add_mset_insert)

lemma sorted_insertBy:
  assumes tot: "\<forall>a b. cmp a b \<le> 0 \<or> cmp b a \<le> 0"
    and tr: "\<forall>a b c. cmp a b \<le> 0 \<and> cmp b c \<le> 0 \<longrightarrow> cmp a c \<le> 0"
  shows "sorted_wrt (\<lambda>a b. cmp a b \<le> 0) xs \<Longrightarrow>
         sorted_wrt (\<lambda>a b. cmp a b \<le> 0) (insertBy cmp x xs)"
proof (induction xs)
  case Nil
  then show ?case by simp
next
  case (Cons y ys)
  show ?case
  proof (cases "cmp x y \<le> 0")
    case True
    have "cmp x z \<le> 0" if "z \<in> set ys" for z
    proof -
      from that Cons.prems have "cmp y z \<le> 0" by simp
      with True tr show ?thesis by blast
    qed
    with True Cons.prems show ?thesis by simp
  next
    case False
    with tot have yx: "cmp y x \<le> 0" by blast
    from Cons.prems have "sorted_wrt (\<lambda>a b. cmp a b \<le> 0) ys"
      and ally: "\<forall>z \<in> set ys. cmp y z \<le> 0" by simp_all
    with Cons.IH have "sorted_wrt (\<lambda>a b. cmp a b \<le> 0) (insertBy cmp x ys)" by simp
    with False yx ally show ?thesis by (simp add: set_insertBy)
  qed
qed

lemma sorted_sortBy:
  assumes "\<forall>a b. cmp a b \<le> 0 \<or> cmp b a \<le> 0"
    and "\<forall>a b c. cmp a b \<le> 0 \<and> cmp b c \<le> 0 \<longrightarrow> cmp a c \<le> 0"
  shows "sorted_wrt (\<lambda>a b. cmp a b \<le> 0) (sortBy cmp xs)"
  by (induction xs) (simp_all add: sortBy_def sorted_insertBy [OF assms])

subsection \<open>The content-types document\<close>

lemma find_snoc:
  "find P (xs @ [y]) = (case find P xs of Some x \<Rightarrow> Some x | None \<Rightarrow> if P y then Some y else None)"
  by (induction xs) auto

lemma find_SomeD: "find P xs = Some r \<Longrightarrow> r \<in> set xs \<and> P r"
  by (induction xs) (auto split: if_splits)

lemma specDefault_snoc:
  "specDefault (xs @ [p]) e =
     (case specDefault xs e of
        Some c \<Rightarrow> Some c
      | None \<Rightarrow> if partExtension p = e then Some (ContentType p) else None)"
  by (simp add: specDefault_def find_snoc split: option.splits)

lemma specDefault_mem:
  assumes "q \<in> set xs"
  shows "\<exists>r \<in> set xs. specDefault xs (partExtension q) = Some (ContentType r)"
proof (cases "find (\<lambda>p. partExtension p = partExtension q) xs")
  case None
  with assms show ?thesis by (auto simp: find_None_iff)
next
  case (Some r)
  from find_SomeD [OF Some] Some show ?thesis by (auto simp: specDefault_def)
qed

lemma specDefault_Some_mem:
  assumes "specDefault xs e = Some c"
  shows "\<exists>r \<in> set xs. ContentType r = c"
proof (cases "find (\<lambda>p. partExtension p = e) xs")
  case None
  with assms show ?thesis by (simp add: specDefault_def)
next
  case (Some r)
  from find_SomeD [OF Some] Some assms show ?thesis by (auto simp: specDefault_def)
qed

lemma isOverride_snoc:
  "q \<in> set xs \<Longrightarrow> isOverride (xs @ [p]) q = isOverride xs q"
  using specDefault_mem [of q xs]
  by (auto simp: isOverride_def specDefault_snoc)

lemma filter_isOverride_snoc:
  "filter (isOverride (xs @ [p])) (xs @ [p]) =
     filter (isOverride xs) xs @ (if isOverride (xs @ [p]) p then [p] else [])"
proof -
  have "filter (isOverride (xs @ [p])) xs = filter (isOverride xs) xs"
    by (rule filter_cong) (simp_all add: isOverride_snoc)
  then show ?thesis by simp
qed

lemma collectedI:
  "distinct (map fst em) \<Longrightarrow>
   \<forall>e. map_of em e = (if e = [] then None else specDefault xs e) \<Longrightarrow>
   ov = specOverrides xs \<Longrightarrow> collected xs (em, ov)"
  by (simp add: collected_def)

lemma truthy_simps [simp]:
  "truthy None = False" "truthy (Some c) = (c \<noteq> [])"
  by (simp_all add: truthy_def)

lemma collected_step:
  assumes ne: "\<forall>q \<in> set (xs @ [p]). ContentType q \<noteq> []"
    and dp: "distinct (map (\<lambda>q. pathFromUri (URI q)) (xs @ [p]))"
    and inv: "collected xs acc"
  shows "collected (xs @ [p]) (contentTypeStep acc p)"
proof -
  obtain extMap overrides where acc: "acc = (extMap, overrides)" by (cases acc)
  define e where "e = partExtension p"
  define pth where "pth = pathFromUri (URI p)"
  from inv acc have d: "distinct (map fst extMap)"
    and m: "\<And>e'. map_of extMap e' = (if e' = [] then None else specDefault xs e')"
    and o: "overrides = specOverrides xs"
    by (simp_all add: collected_def)
  from dp have "pth \<notin> fst ` set (specOverrides xs)"
    by (auto simp: specOverrides_def pth_def)
  then have upd: "AList.update pth (ContentType p) overrides
      = specOverrides xs @ [(pth, ContentType p)]"
    by (simp add: o update_absent)
  have step: "contentTypeStep acc p =
     (if e = [] then (extMap, AList.update pth (ContentType p) overrides)
      else if truthy (map_of extMap e) \<and> map_of extMap e \<noteq> Some (ContentType p)
      then (extMap, AList.update pth (ContentType p) overrides)
      else if \<not> truthy (map_of extMap e)
      then (AList.update e (ContentType p) extMap, overrides)
      else (extMap, overrides))"
    by (simp only: contentTypeStep_def acc Let_def e_def pth_def partExtension_def
        fst_conv snd_conv)
  have so: "specOverrides (xs @ [p]) =
      specOverrides xs @ (if isOverride (xs @ [p]) p then [(pth, ContentType p)] else [])"
    unfolding specOverrides_def filter_isOverride_snoc pth_def by simp
  show ?thesis
  proof (cases "e = []")
    case True
    then have io: "isOverride (xs @ [p]) p" by (simp add: isOverride_def e_def)
    have sd: "specDefault (xs @ [p]) e' = specDefault xs e'" if "e' \<noteq> []" for e'
      using True that by (auto simp: specDefault_snoc e_def split: option.splits)
    from True have st: "contentTypeStep acc p = (extMap, specOverrides xs @ [(pth, ContentType p)])"
      by (simp add: step upd)
    have "\<forall>e'. map_of extMap e' = (if e' = [] then None else specDefault (xs @ [p]) e')"
      using m sd by simp
    moreover have "specOverrides xs @ [(pth, ContentType p)] = specOverrides (xs @ [p])"
      using io by (simp only: so if_True)
    ultimately show ?thesis
      unfolding st using d by (intro collectedI)
  next
    case False
    show ?thesis
    proof (cases "specDefault xs e")
      case None
      then have me: "map_of extMap e = None" using False by (simp add: m)
      have io: "\<not> isOverride (xs @ [p]) p"
        using False None by (simp add: isOverride_def e_def [symmetric] specDefault_snoc)
      have sd: "specDefault (xs @ [p]) e' = (if e' = e then Some (ContentType p)
                  else specDefault xs e')" for e'
        using None by (auto simp: specDefault_snoc e_def split: option.splits)
      from False me have st: "contentTypeStep acc p
          = (AList.update e (ContentType p) extMap, specOverrides xs)"
        by (simp add: step o)
      have d': "distinct (map fst (AList.update e (ContentType p) extMap))"
        using d by (rule distinct_update)
      have m': "\<forall>e'. map_of (AList.update e (ContentType p) extMap) e'
          = (if e' = [] then None else specDefault (xs @ [p]) e')"
        using False by (simp add: update_conv' m sd)
      have o': "specOverrides xs = specOverrides (xs @ [p])"
        using io by (simp only: so if_False append_Nil2)
      show ?thesis
        unfolding st using d' m' o' by (intro collectedI)
    next
      case (Some c)
      then have me: "map_of extMap e = Some c" using False by (simp add: m)
      from specDefault_Some_mem [OF Some] ne have cne: "c \<noteq> []" by auto
      have sd: "specDefault (xs @ [p]) e' = specDefault xs e'" for e'
        using Some by (auto simp: specDefault_snoc e_def split: option.splits)
      have io: "isOverride (xs @ [p]) p \<longleftrightarrow> c \<noteq> ContentType p"
        using False Some by (auto simp: isOverride_def e_def [symmetric] sd)
      have m': "\<forall>e'. map_of extMap e' = (if e' = [] then None else specDefault (xs @ [p]) e')"
        using m sd by simp
      show ?thesis
      proof (cases "c = ContentType p")
        case True
        with False me cne have st: "contentTypeStep acc p = (extMap, specOverrides xs)"
          by (simp add: step o)
        have o': "specOverrides xs = specOverrides (xs @ [p])"
          using io True by (simp add: so)
        show ?thesis
          unfolding st using d m' o' by (intro collectedI)
      next
        case neq: False
        with False me cne have st: "contentTypeStep acc p
            = (extMap, specOverrides xs @ [(pth, ContentType p)])"
          by (simp add: step upd)
        have o': "specOverrides xs @ [(pth, ContentType p)] = specOverrides (xs @ [p])"
          using io neq by (simp add: so)
        show ?thesis
          unfolding st using d m' o' by (intro collectedI)
      qed
    qed
  qed
qed

lemma collected_foldl:
  assumes "\<forall>q \<in> set xs. ContentType q \<noteq> []"
    and "distinct (map (\<lambda>q. pathFromUri (URI q)) xs)"
  shows "collected xs (foldl contentTypeStep ([], []) xs)"
  using assms
proof (induction xs rule: rev_induct)
  case Nil
  then show ?case by (simp add: collected_def specDefault_def specOverrides_def)
next
  case (snoc p xs)
  from snoc.prems have "collected xs (foldl contentTypeStep ([], []) xs)"
    by (intro snoc.IH) auto
  from collected_step [OF snoc.prems this] show ?case by simp
qed


text \<open>
  Claim C8 does not hold when the first part seen with an extension has the empty content
  type: by the claim the default of \<open>txt\<close> is the empty type and the second part is an
  override; the code makes the type of the second part the default and has no override.
\<close>
theorem empty_content_type_is_no_default:
  "specDefault (map snd emptyTypeParts) ''txt'' = Some []
   \<and> specOverrides (map snd emptyTypeParts) = [(''/b.txt'', ''text/plain'')]
   \<and> collectContentTypes emptyTypeParts = ([(''txt'', ''text/plain'')], [])
   \<and> contentTypeDefaults refPlatform emptyTypeParts = [relsDefault, (''txt'', ''text/plain'')]
   \<and> contentTypeOverrides refPlatform emptyTypeParts = []"
  by code_simp

lemma collected_collectContentTypes:
  assumes "\<forall>p \<in> set (map snd ps). ContentType p \<noteq> []"
    and "distinct (map (\<lambda>p. pathFromUri (URI p)) (map snd ps))"
  shows "distinct (map fst (fst (collectContentTypes ps)))"
    and "map_of (fst (collectContentTypes ps)) e =
           (if e = [] then None else specDefault (map snd ps) e)"
    and "snd (collectContentTypes ps) = specOverrides (map snd ps)"
  using collected_foldl [OF assms]
  by (simp_all add: collected_def collectContentTypes_def)

lemma consistentCompare_fst:
  assumes "consistentCompare cmp"
  shows "\<forall>a b. cmp (fst a) (fst b) \<le> 0 \<or> cmp (fst b) (fst a) \<le> 0"
    and "\<forall>a b c. cmp (fst a) (fst b) \<le> 0 \<and> cmp (fst b) (fst c) \<le> 0
           \<longrightarrow> cmp (fst a) (fst c) \<le> 0"
  using assms unfolding consistentCompare_def by blast+

text \<open>
  Claim C8, amended. For parts whose content types are not empty (and whose paths are
  distinct, as in a registry), with a comparator that orders: the content-types document
  holds the fixed default of \<open>rels\<close> first, then the defaults, then the overrides. The
  defaults are, for every extension, the content type of the first part seen with it;
  they are sorted by extension. The overrides are the parts without an extension and the
  parts whose content type is not the one of the first part seen with their extension;
  they are sorted by path.
\<close>
theorem contentTypes_defaults_and_overrides:
  assumes ne: "\<forall>p \<in> set (map snd ps). ContentType p \<noteq> []"
    and dp: "distinct (map (\<lambda>p. pathFromUri (URI p)) (map snd ps))"
    and cc: "consistentCompare (localeCompare P)"
  shows "\<exists>D Ov.
      contentTypesDocument P ps =
        XmlNodeLike ''Types'' [(''xmlns'', OpcContentTypesNamespace)]
          (map defaultElement (relsDefault # D) @ map overrideElement Ov)
    \<and> set D = {(e, c). e \<noteq> [] \<and> specDefault (map snd ps) e = Some c}
    \<and> distinct (map fst D)
    \<and> sorted_wrt (\<lambda>a b. localeCompare P (fst a) (fst b) \<le> 0) D
    \<and> mset Ov = mset (specOverrides (map snd ps))
    \<and> sorted_wrt (\<lambda>a b. localeCompare P (fst a) (fst b) \<le> 0) Ov"
proof -
  define cmp where "cmp = (\<lambda>(l :: string \<times> string) (r :: string \<times> string).
                         localeCompare P (fst l) (fst r))"
  define D where "D = sortBy cmp (fst (collectContentTypes ps))"
  define Ov where "Ov = sortBy cmp (snd (collectContentTypes ps))"
  note col = collected_collectContentTypes [OF ne dp]
  have doc: "contentTypesDocument P ps =
        XmlNodeLike ''Types'' [(''xmlns'', OpcContentTypesNamespace)]
          (map defaultElement (relsDefault # D) @ map overrideElement Ov)"
    by (simp add: contentTypesDocument_def contentTypeDefaults_def contentTypeOverrides_def
        D_def Ov_def cmp_def)
  have "set D = set (fst (collectContentTypes ps))"
    by (simp add: D_def set_sortBy)
  also have "\<dots> = {(e, c). map_of (fst (collectContentTypes ps)) e = Some c}"
    using col(1) by auto
  also have "\<dots> = {(e, c). e \<noteq> [] \<and> specDefault (map snd ps) e = Some c}"
    by (auto simp: col(2) split: if_splits)
  finally have sd: "set D = {(e, c). e \<noteq> [] \<and> specDefault (map snd ps) e = Some c}" .
  have "mset (map fst D) = mset (map fst (fst (collectContentTypes ps)))"
    by (simp add: D_def mset_sortBy)
  from mset_eq_imp_distinct_iff [OF this] col(1) have dd: "distinct (map fst D)" by simp
  have tot: "\<forall>a b. cmp a b \<le> 0 \<or> cmp b a \<le> 0"
    unfolding cmp_def by (rule consistentCompare_fst(1) [OF cc])
  have tr: "\<forall>a b c. cmp a b \<le> 0 \<and> cmp b c \<le> 0 \<longrightarrow> cmp a c \<le> 0"
    unfolding cmp_def by (rule consistentCompare_fst(2) [OF cc])
  have sD: "sorted_wrt (\<lambda>a b. localeCompare P (fst a) (fst b) \<le> 0) D"
    using sorted_sortBy [OF tot tr, of "fst (collectContentTypes ps)"]
    by (simp add: D_def cmp_def)
  have mO: "mset Ov = mset (specOverrides (map snd ps))"
    by (simp add: Ov_def mset_sortBy col(3))
  have sO: "sorted_wrt (\<lambda>a b. localeCompare P (fst a) (fst b) \<le> 0) Ov"
    using sorted_sortBy [OF tot tr, of "snd (collectContentTypes ps)"]
    by (simp add: Ov_def cmp_def)
  from doc sd dd sD mO sO show ?thesis
    by (intro exI [of _ D] exI [of _ Ov] conjI)
qed

lemma consistentCompare_refCompare: "consistentCompare refCompare"
  by (auto simp: consistentCompare_def refCompare_def)

text \<open>Five parts: two defaults and two overrides.\<close>
theorem contentTypes_defaults_and_overrides_witness:
  "list_all (\<lambda>p. ContentType p \<noteq> []) (map snd mixedParts)
   \<and> distinct (map (\<lambda>p. pathFromUri (URI p)) (map snd mixedParts))
   \<and> contentTypeDefaults refPlatform mixedParts
       = [relsDefault, (''json'', ''application/json''), (''xml'', ''application/xml'')]
   \<and> contentTypeOverrides refPlatform mixedParts
       = [(''/a.xml'', ''text/xml''), (''/readme'', ''text/plain'')]
   \<and> specDefault (map snd mixedParts) ''xml'' = Some ''application/xml''
   \<and> (\<exists>D Ov. contentTypesDocument refPlatform mixedParts =
        XmlNodeLike ''Types'' [(''xmlns'', OpcContentTypesNamespace)]
          (map defaultElement (relsDefault # D) @ map overrideElement Ov)
      \<and> (''xml'', ''application/xml'') \<in> set D
      \<and> mset Ov = mset [(''/a.xml'', ''text/xml''), (''/readme'', ''text/plain'')])"
proof -
  have ne: "\<forall>p \<in> set (map snd mixedParts). ContentType p \<noteq> []"
    by (simp add: mixedParts_def examplePart_def)
  have dp: "distinct (map (\<lambda>p. pathFromUri (URI p)) (map snd mixedParts))"
    by code_simp
  have cc: "consistentCompare (localeCompare refPlatform)"
    by (simp add: refPlatform_def consistentCompare_refCompare)
  have d: "contentTypeDefaults refPlatform mixedParts
       = [relsDefault, (''json'', ''application/json''), (''xml'', ''application/xml'')]"
    by code_simp
  have o: "contentTypeOverrides refPlatform mixedParts
       = [(''/a.xml'', ''text/xml''), (''/readme'', ''text/plain'')]"
    by code_simp
  have s: "specDefault (map snd mixedParts) ''xml'' = Some ''application/xml''"
    by code_simp
  have so: "specOverrides (map snd mixedParts)
      = [(''/a.xml'', ''text/xml''), (''/readme'', ''text/plain'')]"
    by code_simp
  from contentTypes_defaults_and_overrides [OF ne dp cc]
  obtain D Ov where doc: "contentTypesDocument refPlatform mixedParts =
        XmlNodeLike ''Types'' [(''xmlns'', OpcContentTypesNamespace)]
          (map defaultElement (relsDefault # D) @ map overrideElement Ov)"
    and sd: "set D = {(e, c). e \<noteq> [] \<and> specDefault (map snd mixedParts) e = Some c}"
    and mo: "mset Ov = mset (specOverrides (map snd mixedParts))"
    by (elim exE conjE)
  from sd s have m: "(''xml'', ''application/xml'') \<in> set D" by simp
  from mo so have mo': "mset Ov = mset [(''/a.xml'', ''text/xml''), (''/readme'', ''text/plain'')]"
    by simp
  from doc m mo' have ex: "\<exists>D Ov. contentTypesDocument refPlatform mixedParts =
        XmlNodeLike ''Types'' [(''xmlns'', OpcContentTypesNamespace)]
          (map defaultElement (relsDefault # D) @ map overrideElement Ov)
      \<and> (''xml'', ''application/xml'') \<in> set D
      \<and> mset Ov = mset [(''/a.xml'', ''text/xml''), (''/readme'', ''text/plain'')]"
    by (intro exI [of _ D] exI [of _ Ov] conjI)
  from ne have ne': "list_all (\<lambda>p. ContentType p \<noteq> []) (map snd mixedParts)"
    by (simp add: list_all_iff)
  from ne' dp d o s ex show ?thesis by (intro conjI)
qed

subsection \<open>The round trip through an archive\<close>


text \<open>
  A content type that is empty does not come back either: the reader takes an empty
  content type for none and gives the part the default of its extension, or
  \<open>application/octet-stream\<close>.
\<close>
lemma roundTrip_changes_empty_content_type:
  "Specs untypedPackage = Inr [untypedPart]
   \<and> \<not> isl (OpenReadFromBytes refPlatform (fst (Flush refPlatform untypedPackage)))
   \<and> Specs untypedReopened = Inr [untypedPart\<lparr>ContentType := ''application/octet-stream''\<rparr>]"
  by code_simp

subsubsection \<open>Normal paths\<close>

text \<open>
  A normal path is a slash followed by its segments joined with slashes; the canonical
  path of a normal path is the path in lower case.
\<close>

lemma split_no_sep: "c \<notin> set s \<Longrightarrow> split s c = [s]"
  by (induction s) auto

lemma split_append_sep:
  "c \<notin> set s \<Longrightarrow> split (s @ c # t) c = s # split t c"
  by (induction s) (auto split: list.splits)

lemma split_join:
  "xs \<noteq> [] \<Longrightarrow> \<forall>s \<in> set xs. CHR ''/'' \<notin> set s \<Longrightarrow> split (join xs ''/'') (CHR ''/'') = xs"
proof (induction xs "''/''" rule: join.induct)
  case 1
  then show ?case by simp
next
  case (2 x)
  then show ?case by (simp add: split_no_sep)
next
  case (3 x y ys)
  then have "split (join (y # ys) ''/'') (CHR ''/'') = y # ys" by simp
  with 3 show ?case using split_append_sep [of "CHR ''/''" x "join (y # ys) ''/''"] by simp
qed

lemma split_elems_no_sep: "\<forall>s \<in> set (split p c). c \<notin> set s"
  by (induction p) (auto split: list.splits)

lemma foldl_normalizeStep_segOK:
  "list_all segOK xs \<Longrightarrow> foldl normalizeStep st xs = st @ xs"
  by (induction xs arbitrary: st) (auto simp: normalizeStep_def segOK_def)

lemma normalizeStep_keeps:
  "list_all segOK st \<Longrightarrow> CHR ''/'' \<notin> set s \<Longrightarrow> list_all segOK (normalizeStep st s)"
  by (auto simp: normalizeStep_def segOK_def list_all_iff dest: in_set_butlastD)

lemma foldl_normalizeStep_keeps:
  "list_all segOK st \<Longrightarrow> \<forall>s \<in> set xs. CHR ''/'' \<notin> set s \<Longrightarrow>
   list_all segOK (foldl normalizeStep st xs)"
  by (induction xs arbitrary: st) (simp_all add: normalizeStep_keeps)

lemma segsOf_segOK: "list_all segOK (segsOf p)"
  unfolding segsOf_def by (rule foldl_normalizeStep_keeps) (simp_all add: split_elems_no_sep)

lemma normalizePath_segsOf: "normalizePath p = ''/'' @ join (segsOf p) ''/''"
  by (simp add: normalizePath_def segsOf_def)

lemma segsOf_join:
  assumes "list_all segOK xs"
  shows "segsOf (''/'' @ join xs ''/'') = xs"
proof (cases "xs = []")
  case True
  then show ?thesis by (simp add: segsOf_def normalizeStep_def)
next
  case False
  from assms have ns: "\<forall>s \<in> set xs. CHR ''/'' \<notin> set s" by (auto simp: list_all_iff segOK_def)
  have "split (''/'' @ join xs ''/'') (CHR ''/'') = [] # xs"
    using split_append_sep [of "CHR ''/''" "[]" "join xs ''/''"] split_join [OF False ns] by simp
  then show ?thesis
    using foldl_normalizeStep_segOK [OF assms, of "[]"] by (simp add: segsOf_def normalizeStep_def)
qed

lemma normalizePath_idem: "normalizePath (normalizePath p) = normalizePath p"
  by (simp add: normalizePath_segsOf segsOf_join [OF segsOf_segOK] del: append.simps)

lemma normalizePath_join:
  "list_all segOK xs \<Longrightarrow> normalizePath (''/'' @ join xs ''/'') = ''/'' @ join xs ''/''"
  using segsOf_join [of xs] by (simp add: normalizePath_segsOf del: append.simps)

text \<open>A normal path is one that \<open>normalizePath\<close> leaves as it is.\<close>

lemma normal_path_segments:
  assumes "normalizePath p = p"
  shows "p = ''/'' @ join (segsOf p) ''/''" and "list_all segOK (segsOf p)"
  using assms by (simp_all add: normalizePath_segsOf segsOf_segOK)


lemma segOK_toLowerCase:
  assumes "segOK s"
  shows "segOK (map lowerChar s)"
proof -
  have "CHR ''/'' \<notin> set (map lowerChar s)"
  proof
    assume "CHR ''/'' \<in> set (map lowerChar s)"
    then have "CHR ''/'' \<in> lowerChar ` set s" by (simp only: set_map)
    then obtain x where x: "x \<in> set s" and e: "CHR ''/'' = lowerChar x" by (rule imageE)
    from e have "x = CHR ''/''" by simp
    with x have "CHR ''/'' \<in> set s" by simp
    with assms show False by (simp add: segOK_def)
  qed
  with assms show ?thesis by (simp add: segOK_def)
qed

lemma toLowerCase_join: "toLowerCase (join xs ''/'') = join (map (map lowerChar) xs) ''/''"
  by (simp add: toLowerCase_def join_toLowerCase)

lemma normalizePathForMap_normal:
  assumes "normalizePath p = p"
  shows "normalizePathForMap p = toLowerCase p"
proof -
  from normal_path_segments(1) [OF assms] obtain t where "p = CHR ''/'' # t"
    by simp
  then have "startsWith p ''/''" and "p \<noteq> []"
    by (simp_all add: startsWith_def)
  with assms show ?thesis by (simp add: normalizePathForMap_def Let_def)
qed


lemma normalizePathForMap_idem:
  "normalizePathForMap (normalizePathForMap p) = normalizePathForMap p"
proof (cases "p = []")
  case True
  then show ?thesis by simp
next
  case False
  define w where "w = (if startsWith p ''/'' then p else ''/'' @ p)"
  have k: "normalizePathForMap p = toLowerCase (normalizePath w)"
    using False by (simp add: normalizePathForMap_def Let_def w_def)
  have n: "normalizePath (toLowerCase (normalizePath w)) = toLowerCase (normalizePath w)"
    by (simp add: normalizePath_toLowerCase normalizePath_idem)
  from normalizePathForMap_normal [OF n] show ?thesis by (simp add: k)
qed

subsubsection \<open>Directory and base name of a normal path\<close>










lemma join_Nil_iff: "list_all segOK ds \<Longrightarrow> join ds ''/'' = [] \<longleftrightarrow> ds = []"
  by (induction ds "''/''" rule: join.induct) (auto simp: segOK_def)



subsubsection \<open>Names of relationship documents\<close>

text \<open>
  The source path that the reader takes from the name of a relationship document is the
  key the writer made the name from.
\<close>

lemma removeSuffix_append [simp]: "removeSuffix (b @ sfx) sfx = b"
  by (simp add: removeSuffix_def suffix_def)



lemma no_slash_rels: "CHR ''/'' \<notin> set b \<Longrightarrow> CHR ''/'' \<notin> set (b @ ''.rels'')"
  by simp




subsubsection \<open>Plain paths\<close>










subsubsection \<open>The written entries\<close>














subsubsection \<open>Relationship documents read back\<close>









subsubsection \<open>The content-types document read back\<close>











subsubsection \<open>The content type of a part read back\<close>






subsubsection \<open>Loading the entries\<close>












subsubsection \<open>The entries of a written package\<close>











subsubsection \<open>The package read back\<close>



subsubsection \<open>Reading through the facade\<close>








subsubsection \<open>Packages that an archive holds faithfully\<close>





lemma padded_id_nonempty: "''R'' @ s \<noteq> []"
  by simp















subsubsection \<open>The reference platform reads back what it writes\<close>










subsubsection \<open>The round trip of plain parts\<close>



end
